theory Spec2Isabelle
  imports Complex_Main
begin

section \<open>Numbers and runtime faults\<close>

text \<open>
  The engine of k-space-lab is TypeScript. A JavaScript \<^verbatim>\<open>number\<close> is modelled as a
  \<^typ>\<open>real\<close> and a mathjs \<^verbatim>\<open>Complex\<close> as a \<^typ>\<open>complex\<close>. In the transforms, in the
  log-magnitude and in the geometry of the controller the rounding of IEEE doubles (and
  of the \<^verbatim>\<open>Float32Array\<close> planes of the worker) is idealised away, so statements about
  them are about exact arithmetic. In the rescale to bytes the rounding decides which
  byte is written, so there every subtraction, division and multiplication is rounded
  to a double (\<open>fl\<close> below). Array sizes (\<^verbatim>\<open>rows\<close>, \<^verbatim>\<open>cols\<close>) that a caller hands in
  are \<^typ>\<open>int\<close>; loop indices are \<^typ>\<open>nat\<close>.

  Exceptions are values. \<open>RangeError\<close> is what \<^verbatim>\<open>new Array(n)\<close> throws for a negative
  \<open>n\<close>, \<open>TypeError\<close> what a property read on \<^verbatim>\<open>undefined\<close> or \<^verbatim>\<open>null\<close> throws,
  \<open>IndexSizeError\<close> what \<^verbatim>\<open>createImageData\<close> throws for a zero width or height.
  \<open>UndefinedEntry\<close> marks the point where an \<^verbatim>\<open>undefined\<close> array cell would be handed
  to mathjs; what the library does with it is outside the repository, so the model stops
  there.
\<close>

datatype js_error = RangeError | TypeError | IndexSizeError | UndefinedEntry

text \<open>\<^verbatim>\<open>Math.round\<close>: the nearest integer, ties towards \<open>+\<infinity>\<close>.\<close>

definition js_round :: "real \<Rightarrow> int" where
  "js_round v = \<lfloor>v + 1 / 2\<rfloor>"

text \<open>\<^verbatim>\<open>xs[i]\<close> on a JavaScript array: \<^verbatim>\<open>undefined\<close> (here \<open>None\<close>) out of range.\<close>

definition js_nth :: "'a list \<Rightarrow> nat \<Rightarrow> 'a option" where
  "js_nth xs i = (if i < length xs then Some (xs ! i) else None)"

text \<open>
  The result of an arithmetic operation on doubles is the exact result rounded to the
  nearest double, ties to the one with an even significand (IEEE 754 binary64, the
  only rounding mode of JavaScript). A double other than zero is an integer significand
  of 53 bits times a power of two: for \<open>2 ^ e \<le> \<bar>x\<bar> < 2 ^ (e + 1)\<close> the doubles around \<open>x\<close>
  are the multiples of \<open>2 ^ (e - 52)\<close>. \<open>rne\<close> rounds to the nearest integer, ties to
  even, and \<open>fl\<close> to the nearest double. The exponent is not bounded here: overflow to
  \<^verbatim>\<open>Infinity\<close> (beyond \<open>2 ^ 1024\<close>) and the coarser subnormal doubles (below \<open>2 ^ (- 1022)\<close>)
  are left out.
\<close>

definition rne :: "real \<Rightarrow> int" where
  "rne y = (let f = \<lfloor>y\<rfloor>; d = y - of_int f
     in if d < 1 / 2 then f else if 1 / 2 < d then f + 1 else if even f then f else f + 1)"

definition fl :: "real \<Rightarrow> real" where
  "fl x = (if x = 0 then 0
     else let e = \<lfloor>log 2 \<bar>x\<bar>\<rfloor> in of_int (rne (x * 2 powi (52 - e))) * 2 powi (e - 52))"

section \<open>The 1D transform of the library\<close>

text \<open>
  Modelled from the spec: \<^verbatim>\<open>math.fft\<close> and \<^verbatim>\<open>math.ifft\<close> belong to the mathjs library,
  which is not part of the repository. Spec 4.1: ``Each 1D transform is a standard
  length-N discrete Fourier transform''. \<open>omega n\<close> is the primitive \<open>n\<close>-th root of
  unity \<open>exp (-2\<pi>i/n)\<close> of the forward transform. On the empty list the definitions
  give the empty list; what the library does there is not known from the repository,
  and the claims' theorems below apply the transforms to non-empty lists only.
\<close>

definition omega :: "nat \<Rightarrow> complex" where
  "omega n = cis (- (2 * pi / real n))"

definition fft :: "complex list \<Rightarrow> complex list" where
  "fft xs = (let n = length xs
     in map (\<lambda>k. \<Sum>j\<leftarrow>[0..<n]. xs ! j * omega n ^ (j * k)) [0..<n])"

definition ifft :: "complex list \<Rightarrow> complex list" where
  "ifft xs = (let n = length xs
     in map (\<lambda>j. (\<Sum>k\<leftarrow>[0..<n]. xs ! k * inverse (omega n) ^ (j * k)) / of_nat n) [0..<n])"

section \<open>Circular mask\<close>

text \<open>
  \<^verbatim>\<open>renderReconFromCircle\<close> (lib/kspace, lines 188-197) and \<^verbatim>\<open>reconFromCircle\<close>
  (workers/reconWorker.ts, lines 38, 45-47) decide membership by the same expression:
  \<^verbatim>\<open>r2 = radius * radius; dx = x - cx; dy = y - cy; inside = dx*dx + dy*dy <= r2\<close>.
\<close>

definition inside :: "real \<Rightarrow> real \<Rightarrow> real \<Rightarrow> nat \<Rightarrow> nat \<Rightarrow> bool" where
  "inside cx cy radius x y =
     (let r2 = radius * radius; dx = real x - cx; dy = real y - cy
      in dx * dx + dy * dy \<le> r2)"

text \<open>
  The array \<^verbatim>\<open>masked\<close> that \<^verbatim>\<open>renderReconFromCircle\<close> builds and hands to
  \<^verbatim>\<open>renderReconFromSpectrum\<close>. The function is called with the dimensions of the
  spectrum it is given, so cells are read in range.
\<close>

definition masked :: "complex list list \<Rightarrow> nat \<Rightarrow> nat \<Rightarrow> real \<Rightarrow> real \<Rightarrow> real \<Rightarrow> complex list list" where
  "masked spectrum rows cols cx cy radius =
     map (\<lambda>y. map (\<lambda>x. if inside cx cy radius x y then spectrum ! y ! x else 0) [0..<cols])
       [0..<rows]"

text \<open>The worker keeps the spectrum as two flat planes; \<^verbatim>\<open>idx\<close> and \<^verbatim>\<open>complexAt\<close>.\<close>

definition idx :: "nat \<Rightarrow> nat \<Rightarrow> nat \<Rightarrow> nat" where
  "idx x y width = y * width + x"

definition complexAt :: "real list \<Rightarrow> real list \<Rightarrow> nat \<Rightarrow> nat \<Rightarrow> nat \<Rightarrow> complex option" where
  "complexAt re im cols x y =
     (let i = idx x y cols
      in case (js_nth re i, js_nth im i) of
           (Some a, Some b) \<Rightarrow> Some (Complex a b)
         | _ \<Rightarrow> None)"

text \<open>
  The column \<^verbatim>\<open>col\<close> of \<^verbatim>\<open>reconFromCircle\<close> (lines 43-49) for one \<open>x\<close>:
  \<^verbatim>\<open>col[y] = inside ? complexAt(x, y) : math.complex(0, 0)\<close>.
\<close>

definition maskedCol :: "real list \<Rightarrow> real list \<Rightarrow> nat \<Rightarrow> nat \<Rightarrow> real \<Rightarrow> real \<Rightarrow> real \<Rightarrow> nat \<Rightarrow> complex option list" where
  "maskedCol re im rows cols cx cy radius x =
     map (\<lambda>y. if inside cx cy radius x y then complexAt re im cols x y else Some 0) [0..<rows]"

text \<open>The positions whose coefficient a mask keeps, in the order the loops visit them.\<close>

definition included :: "nat \<Rightarrow> nat \<Rightarrow> real \<Rightarrow> real \<Rightarrow> real \<Rightarrow> (nat \<times> nat) list" where
  "included rows cols cx cy radius =
     concat (map (\<lambda>y. map (\<lambda>x. (x, y)) (filter (\<lambda>x. inside cx cy radius x y) [0..<cols]))
       [0..<rows])"

section \<open>Transform kernel (lib/kspace)\<close>

text \<open>
  The module \<^verbatim>\<open>lib/kspace\<close> is the file \<^verbatim>\<open>src/unnamed/part_002\<close>; line numbers in
  this section are its lines.

  \<^verbatim>\<open>computeSpectrum\<close>, line 57: the checkerboard flip of row \<open>y\<close>,
  \<^verbatim>\<open>row.map((v, x) => ((x + y) % 2 === 0 ? v : -v))\<close>.
\<close>

definition centered :: "real list \<Rightarrow> nat \<Rightarrow> real list" where
  "centered row y = map (\<lambda>x. if (x + y) mod 2 = 0 then row ! x else - (row ! x)) [0..<length row]"

text \<open>
  \<^verbatim>\<open>computeSpectrum(gray, rows, cols)\<close>, lines 53-69. The faults, in the order the
  source meets them: \<^verbatim>\<open>new Array(rows)\<close> (line 54) throws for a negative \<open>rows\<close>;
  \<^verbatim>\<open>gray[y].map\<close> (line 57) throws when \<open>gray\<close> has fewer than \<open>rows\<close> rows;
  \<^verbatim>\<open>new Array(cols)\<close> (line 61) throws for a negative \<open>cols\<close>, if the loop runs at
  all; \<^verbatim>\<open>spectrum[y][x]\<close> (line 64) is \<^verbatim>\<open>undefined\<close> when a row is shorter than
  \<open>cols\<close>. The function has no other check of its arguments. Rows first (lines
  55-59), then columns (lines 62-67); \<^verbatim>\<open>spectrumCols[y][x] = colFft[y]\<close>.
\<close>

definition computeSpectrum :: "real list list \<Rightarrow> int \<Rightarrow> int \<Rightarrow> js_error + complex list list" where
  "computeSpectrum gray rows cols =
     (if rows < 0 then Inl RangeError
      else if length gray < nat rows then Inl TypeError
      else
        let spectrum = map (\<lambda>y. fft (map complex_of_real (centered (gray ! y) y))) [0..<nat rows]
        in if 0 < rows \<and> cols < 0 then Inl RangeError
           else if list_ex (\<lambda>row. length row < nat cols) spectrum then Inl UndefinedEntry
           else
             let colFfts = map (\<lambda>x. fft (map (\<lambda>y. spectrum ! y ! x) [0..<nat rows])) [0..<nat cols]
             in Inr (map (\<lambda>y. map (\<lambda>x. colFfts ! x ! y) [0..<nat cols]) [0..<nat rows]))"

text \<open>
  The inverse path, \<^verbatim>\<open>renderReconFromSpectrum\<close> lines 109-134 and, word for word,
  \<^verbatim>\<open>reconFromCircle\<close> lines 40-70. \<open>columnsIfft\<close> is the array \<^verbatim>\<open>temp\<close>: the inverse
  transform of every column, \<^verbatim>\<open>temp[y][x] = colIfft[y]\<close>. \<open>rowsIfft\<close> is the array
  \<^verbatim>\<open>recon\<close>: the inverse transform of every row of \<^verbatim>\<open>temp\<close>, its real part
  (\<^verbatim>\<open>val.re\<close>) times \<^verbatim>\<open>sign = (x + y) % 2 === 0 ? 1 : -1\<close>. \<open>reconGrid\<close> is the two
  in sequence: the inverse transform before any normalisation.
\<close>

definition columnsIfft :: "complex list list \<Rightarrow> nat \<Rightarrow> nat \<Rightarrow> complex list list" where
  "columnsIfft cols_in rows cols =
     (let colIffts = map ifft cols_in
      in map (\<lambda>y. map (\<lambda>x. colIffts ! x ! y) [0..<cols]) [0..<rows])"

definition sign :: "nat \<Rightarrow> nat \<Rightarrow> real" where
  "sign x y = (if (x + y) mod 2 = 0 then 1 else - 1)"

definition rowsIfft :: "complex list list \<Rightarrow> nat \<Rightarrow> nat \<Rightarrow> real list list" where
  "rowsIfft temp rows cols =
     map (\<lambda>y. let rowIfft = ifft (temp ! y)
              in map (\<lambda>x. Re (rowIfft ! x) * sign x y) [0..<cols]) [0..<rows]"

definition reconGrid :: "complex list list \<Rightarrow> nat \<Rightarrow> nat \<Rightarrow> real list list" where
  "reconGrid spectrumCols rows cols =
     rowsIfft
       (columnsIfft (map (\<lambda>x. map (\<lambda>y. spectrumCols ! y ! x) [0..<rows]) [0..<cols]) rows cols)
       rows cols"

subsection \<open>Rescaling to bytes\<close>

text \<open>
  The running minimum and maximum start at \<^verbatim>\<open>Infinity\<close> and \<^verbatim>\<open>-Infinity\<close> (here
  \<open>None\<close>) and are updated per cell by \<^verbatim>\<open>if (v < minV) minV = v\<close> and
  \<^verbatim>\<open>if (v > maxV) maxV = v\<close>, in row-major order.
\<close>

fun lower :: "real option \<Rightarrow> real \<Rightarrow> real option" where
  "lower None v = Some v"
| "lower (Some m) v = Some (if v < m then v else m)"

fun upper :: "real option \<Rightarrow> real \<Rightarrow> real option" where
  "upper None v = Some v"
| "upper (Some m) v = Some (if v > m then v else m)"

definition minOf :: "real list list \<Rightarrow> real option" where
  "minOf vals = foldl lower None (concat vals)"

definition maxOf :: "real list list \<Rightarrow> real option" where
  "maxOf vals = foldl upper None (concat vals)"

text \<open>
  \<^verbatim>\<open>scale = maxV > minV ? 255 / (maxV - minV) : 1\<close> (kspace lines 92 and 143, worker
  line 73). \<^verbatim>\<open>-Infinity > Infinity\<close> is false. The difference is rounded to a double,
  then the quotient.
\<close>

fun scaleOf :: "real option \<Rightarrow> real option \<Rightarrow> real" where
  "scaleOf (Some minV) (Some maxV) = (if maxV > minV then fl (255 / fl (maxV - minV)) else 1)"
| "scaleOf _ _ = 1"

text \<open>
  \<^verbatim>\<open>v = Math.max(0, Math.min(255, Math.round((value - minV) * scale)))\<close> (kspace lines
  95 and 146, worker line 76): the difference is rounded to a double, then the product;
  \<^verbatim>\<open>Math.round\<close>, \<^verbatim>\<open>Math.min\<close> and \<^verbatim>\<open>Math.max\<close> are exact. With \<open>minV\<close> still
  \<^verbatim>\<open>Infinity\<close> the product is \<^verbatim>\<open>-Infinity\<close> and the clamp gives 0.
\<close>

fun toByte :: "real \<Rightarrow> real option \<Rightarrow> real \<Rightarrow> int" where
  "toByte v (Some minV) scale = max 0 (min 255 (js_round (fl (fl (v - minV) * scale))))"
| "toByte v None scale = 0"

text \<open>
  The four writes \<^verbatim>\<open>px[i] = v; px[i+1] = v; px[i+2] = v; px[i+3] = 255\<close> and the
  loops around them, over a buffer of \<open>rows * cols * 4\<close> zero bytes
  (\<^verbatim>\<open>createImageData\<close>, \<^verbatim>\<open>new Uint8ClampedArray\<close>), with \<^verbatim>\<open>i = (y * cols + x) * 4\<close>.
  \<open>pixelRow\<close> is the inner loop over \<open>x\<close> for the row that starts at pixel \<open>base\<close>,
  \<open>pixelRows\<close> the outer loop over \<open>y\<close>; \<open>b\<close> gives the byte of a cell.
\<close>

definition putPixel :: "int list \<Rightarrow> nat \<Rightarrow> int \<Rightarrow> int list" where
  "putPixel px i v = px[i := v, i + 1 := v, i + 2 := v, i + 3 := 255]"

definition pixelRow :: "(nat \<Rightarrow> int) \<Rightarrow> nat \<Rightarrow> int list \<Rightarrow> nat \<Rightarrow> int list" where
  "pixelRow b base px n = foldl (\<lambda>px x. putPixel px ((base + x) * 4) (b x)) px [0..<n]"

definition pixelRows :: "(nat \<Rightarrow> nat \<Rightarrow> int) \<Rightarrow> nat \<Rightarrow> int list \<Rightarrow> nat \<Rightarrow> int list" where
  "pixelRows b cols px n = foldl (\<lambda>px y. pixelRow (b y) (y * cols) px cols) px [0..<n]"

definition fillPixels :: "real list list \<Rightarrow> real option \<Rightarrow> real \<Rightarrow> nat \<Rightarrow> nat \<Rightarrow> int list" where
  "fillPixels vals minV scale rows cols =
     pixelRows (\<lambda>y x. toByte (vals ! y ! x) minV scale) cols (replicate (rows * cols * 4) 0) rows"

text \<open>
  \<open>pixelsOf\<close> is the scale and the pixel loops together (kspace lines 92-102 and
  143-153, worker lines 73-83), for the values \<open>vals\<close> whose minimum and maximum were
  tracked. \<open>toImage\<close> is the canvas part of both renderers, lines 86-103 and 137-154:
  \<^verbatim>\<open>createImageData\<close> refuses a zero width or height (with a zero dimension the
  reconstruction would before that hand empty arrays to the library; no image results
  either way). The result modelled is the pixel buffer \<^verbatim>\<open>imgData.data\<close>; its PNG
  encoding as a data URL is the browser's.
\<close>

definition pixelsOf :: "real list list \<Rightarrow> nat \<Rightarrow> nat \<Rightarrow> int list" where
  "pixelsOf vals rows cols =
     (let minV = minOf vals; maxV = maxOf vals; scale = scaleOf minV maxV
      in fillPixels vals minV scale rows cols)"

definition toImage :: "real list list \<Rightarrow> nat \<Rightarrow> nat \<Rightarrow> js_error + int list" where
  "toImage vals rows cols =
     (if cols = 0 \<or> rows = 0 then Inl IndexSizeError else Inr (pixelsOf vals rows cols))"

text \<open>
  \<^verbatim>\<open>renderKspace\<close>, lines 71-105: \<^verbatim>\<open>mags[y][x] = Math.log1p(math.abs(z))\<close>.
  \<^verbatim>\<open>renderKspace\<close> and \<^verbatim>\<open>renderReconFromSpectrum\<close> are module-private and called
  with the dimensions of the spectrum they are given (lines 160-177, 199), so their
  dimensions are natural numbers here and cells are read in range; the exported
  \<^verbatim>\<open>renderReconFromCircle\<close> is modelled for a spectrum of the dimensions it is
  called with.
\<close>

definition mags :: "complex list list \<Rightarrow> nat \<Rightarrow> nat \<Rightarrow> real list list" where
  "mags spectrumCols rows cols =
     map (\<lambda>y. map (\<lambda>x. ln (1 + cmod (spectrumCols ! y ! x))) [0..<cols]) [0..<rows]"

definition renderKspace :: "complex list list \<Rightarrow> nat \<Rightarrow> nat \<Rightarrow> js_error + int list" where
  "renderKspace spectrumCols rows cols = toImage (mags spectrumCols rows cols) rows cols"

definition renderReconFromSpectrum :: "complex list list \<Rightarrow> nat \<Rightarrow> nat \<Rightarrow> js_error + int list" where
  "renderReconFromSpectrum spectrumCols rows cols =
     toImage (reconGrid spectrumCols rows cols) rows cols"

definition renderReconFromCircle ::
  "complex list list \<Rightarrow> nat \<Rightarrow> nat \<Rightarrow> real \<Rightarrow> real \<Rightarrow> real \<Rightarrow> js_error + int list" where
  "renderReconFromCircle spectrum rows cols cx cy radius =
     renderReconFromSpectrum (masked spectrum rows cols cx cy radius) rows cols"

section \<open>Masked reconstruction service (workers/reconWorker.ts)\<close>

text \<open>The module state and the two message types, with the replies the worker posts.\<close>

record worker =
  ROWS :: int
  COLS :: int
  SPEC_RE :: "real list option"
  SPEC_IM :: "real list option"

definition initial :: worker where
  "initial = \<lparr>ROWS = 0, COLS = 0, SPEC_RE = None, SPEC_IM = None\<rparr>"

datatype in_msg = LoadSpectrum int int "real list" "real list" | CircleRecon real real real

text \<open>
  The \<^verbatim>\<open>error\<close> field of an error reply: the literal \<^verbatim>\<open>'Spectrum not loaded'\<close>, or
  \<^verbatim>\<open>String(err)\<close> of an exception caught at line 106.
\<close>

datatype err_text = Spectrum_not_loaded | Caught js_error

datatype out_msg = Loaded | Recon int int "int list" | Error err_text

text \<open>
  \<^verbatim>\<open>reconFromCircle(cx, cy, radius)\<close>, lines 37-85, with the globals it reads as
  arguments; \<^verbatim>\<open>onmessage\<close> calls it only once both planes are non-null.
  \<^verbatim>\<open>new Array(ROWS)\<close> (line 40) and \<^verbatim>\<open>new Array(COLS)\<close> (line 41) throw on a
  negative length; a plane read out of range is \<^verbatim>\<open>undefined\<close>. \<open>workerRecon\<close> is
  the array \<^verbatim>\<open>recon\<close> of lines 55-70, \<open>None\<close> when an \<^verbatim>\<open>undefined\<close> was met.
\<close>

definition workerRecon ::
  "real list \<Rightarrow> real list \<Rightarrow> nat \<Rightarrow> nat \<Rightarrow> real \<Rightarrow> real \<Rightarrow> real \<Rightarrow> real list list option" where
  "workerRecon re im rows cols cx cy radius =
     (case those (map (\<lambda>x. those (maskedCol re im rows cols cx cy radius x)) [0..<cols]) of
        None \<Rightarrow> None
      | Some cols_in \<Rightarrow> Some (rowsIfft (columnsIfft cols_in rows cols) rows cols))"

definition reconFromCircle ::
  "int \<Rightarrow> int \<Rightarrow> real list \<Rightarrow> real list \<Rightarrow> real \<Rightarrow> real \<Rightarrow> real \<Rightarrow> js_error + int list" where
  "reconFromCircle R C re im cx cy radius =
     (if R < 0 then Inl RangeError
      else if 0 < R \<and> C < 0 then Inl RangeError
      else
        let rows = nat R; cols = nat C
        in case workerRecon re im rows cols cx cy radius of
             None \<Rightarrow> Inl UndefinedEntry
           | Some recon \<Rightarrow> Inr (pixelsOf recon rows cols))"

text \<open>
  \<^verbatim>\<open>self.onmessage\<close>, lines 87-110: the new state and the reply posted. A typed array
  is truthy whatever its length, so \<^verbatim>\<open>!SPEC_RE\<close> holds exactly for \<^verbatim>\<open>null\<close>.
\<close>

definition onmessage :: "worker \<Rightarrow> in_msg \<Rightarrow> worker \<times> out_msg" where
  "onmessage w data =
     (case data of
        LoadSpectrum rows cols re im \<Rightarrow>
          (w\<lparr>ROWS := rows, COLS := cols, SPEC_RE := Some re, SPEC_IM := Some im\<rparr>, Loaded)
      | CircleRecon cx cy radius \<Rightarrow>
          (case (SPEC_RE w, SPEC_IM w) of
             (Some re, Some im) \<Rightarrow>
               if ROWS w = 0 \<or> COLS w = 0 then (w, Error Spectrum_not_loaded)
               else (case reconFromCircle (ROWS w) (COLS w) re im cx cy radius of
                       Inl err \<Rightarrow> (w, Error (Caught err))
                     | Inr px \<Rightarrow> (w, Recon (ROWS w) (COLS w) px))
           | _ \<Rightarrow> (w, Error Spectrum_not_loaded)))"

text \<open>
  The worker is single-threaded and the handler synchronous: messages are handled one
  after the other in arrival order, each reply posted before the next message is read.
\<close>

fun run :: "worker \<Rightarrow> in_msg list \<Rightarrow> worker \<times> out_msg list" where
  "run w [] = (w, [])"
| "run w (m # ms) =
     (let (w', r) = onmessage w m; (w'', rs) = run w' ms in (w'', r # rs))"

section \<open>Interface thread (App.tsx)\<close>

type_synonym point = "real \<times> real"

text \<open>
  The first component of \<^verbatim>\<open>src/src/App.tsx\<close> (lines 1-280), the one that starts the
  worker. The record holds the part of its state the reconstruction touches (\<open>app_rows\<close> and
  \<open>app_cols\<close> are the state variables \<^verbatim>\<open>rows\<close> and \<^verbatim>\<open>cols\<close>). \<open>reconUrl\<close> is the
  displayed reconstruction: the data URL is a lossless encoding of the reply's
  \<open>rows\<close>, \<open>cols\<close> and \<open>pixels\<close>, which stand for it here.
\<close>

record app =
  app_rows :: "int option"
  app_cols :: "int option"
  circleCenter :: "point option"
  reconUrl :: "(int \<times> int \<times> int list) option"
  reconBusy :: bool

text \<open>
  \<^verbatim>\<open>onOverlayMove\<close>, lines 187-194: the state after the call and the message posted
  to the worker, if any. The message has the fields \<^verbatim>\<open>type, cx, cy, radius\<close> and no
  other.
\<close>

definition onOverlayMove :: "app \<Rightarrow> point \<Rightarrow> real \<Rightarrow> app \<times> in_msg option" where
  "onOverlayMove a centerNat radiusNat =
     (let a1 = a\<lparr>circleCenter := Some centerNat\<rparr>
      in if app_rows a1 = None \<or> app_cols a1 = None then (a1, None)
         else (a1\<lparr>reconBusy := True\<rparr>, Some (CircleRecon (fst centerNat) (snd centerNat) radiusNat)))"

text \<open>
  The handler \<^verbatim>\<open>ensureWorker\<close> installs on the worker, lines 29-48: a \<^verbatim>\<open>recon\<close> reply
  is painted and displayed, an \<^verbatim>\<open>error\<close> reply is logged; both clear \<open>reconBusy\<close>.
  A \<^verbatim>\<open>loaded\<close> reply matches neither branch.
\<close>

definition app_onmessage :: "app \<Rightarrow> out_msg \<Rightarrow> app" where
  "app_onmessage a msg =
     (case msg of
        Recon r c pixels \<Rightarrow> a\<lparr>reconUrl := Some (r, c, pixels), reconBusy := False\<rparr>
      | Error e \<Rightarrow> a\<lparr>reconBusy := False\<rparr>
      | Loaded \<Rightarrow> a)"

section \<open>Interactive mask controller (components)\<close>

text \<open>
  Both controller components are in the file \<^verbatim>\<open>src/unnamed/part_000\<close>, whose lines
  the numbers in this section are: \<^verbatim>\<open>KSpaceOverlay\<close> (lines 1-244) and
  \<^verbatim>\<open>KSpaceCanvas\<close> (lines 245-525). They take the same
  props and share the coordinate helpers. \<open>bounds\<close> is \<^verbatim>\<open>getRect()\<close>: \<^verbatim>\<open>undefined\<close>
  (here \<open>None\<close>) while the element is not mounted. \<open>shown\<close> is the prop \<^verbatim>\<open>show\<close>.
  The scale factors divide by the element's width and height; an element of size zero
  (\<^verbatim>\<open>Infinity\<close> or \<^verbatim>\<open>NaN\<close> in JavaScript) is outside the model.
\<close>

record rect =
  rleft :: real
  rtop :: real
  rwidth :: real
  rheight :: real

record props =
  shown :: bool
  disabled :: bool
  center :: "point option"
  radiusPx :: real
  naturalWidth :: real
  naturalHeight :: real
  bounds :: "rect option"

definition toDisplay :: "props \<Rightarrow> point \<Rightarrow> point" where
  "toDisplay p natPt =
     (case bounds p of
        None \<Rightarrow> (0, 0)
      | Some rc \<Rightarrow>
          let sx = rwidth rc / naturalWidth p; sy = rheight rc / naturalHeight p
          in (fst natPt * sx, snd natPt * sy))"

definition toNatural :: "props \<Rightarrow> point \<Rightarrow> point" where
  "toNatural p disp =
     (case bounds p of
        None \<Rightarrow> (0, 0)
      | Some rc \<Rightarrow>
          let sx = naturalWidth p / rwidth rc; sy = naturalHeight p / rheight rc
          in (of_int (js_round (fst disp * sx)), of_int (js_round (snd disp * sy))))"

definition clampDisplay :: "props \<Rightarrow> point \<Rightarrow> real \<Rightarrow> point" where
  "clampDisplay p pt r =
     (case bounds p of
        None \<Rightarrow> pt
      | Some rc \<Rightarrow>
          (max r (min (rwidth rc - r) (fst pt)), max r (min (rheight rc - r) (snd pt))))"

definition getScaleX :: "props \<Rightarrow> real" where
  "getScaleX p = (case bounds p of None \<Rightarrow> 1 | Some rc \<Rightarrow> naturalWidth p / rwidth rc)"

text \<open>\<^verbatim>\<open>a ?? b\<close>: the left operand unless it is \<^verbatim>\<open>null\<close>.\<close>

definition orElse :: "'a option \<Rightarrow> 'a \<Rightarrow> 'a" where
  "orElse a b = (case a of Some v \<Rightarrow> v | None \<Rightarrow> b)"

definition orElseOpt :: "'a option \<Rightarrow> 'a option \<Rightarrow> 'a option" where
  "orElseOpt a b = (case a of Some v \<Rightarrow> Some v | None \<Rightarrow> b)"

subsection \<open>KSpaceCanvas\<close>

text \<open>
  The React state and refs of the component, and around them the browser: \<open>pending\<close>
  holds the handles of the timeouts that are armed (\<^verbatim>\<open>setTimeout\<close> adds one,
  \<^verbatim>\<open>clearTimeout\<close> and expiry remove it), \<open>fresh\<close> is the next handle, and \<open>sent\<close> lists
  the calls of the prop \<^verbatim>\<open>onMove\<close> so far, oldest first. Each call of \<^verbatim>\<open>onMove\<close> is
  one reconstruct request of the host (\<open>onOverlayMove\<close>).
\<close>

record canvas =
  dragging :: bool
  resizing :: bool
  localCenter :: "point option"
  localRadiusPx :: "real option"
  timerRef :: "nat option"
  lastArgsRef :: "(point \<times> real) option"
  lastNatRef :: "point option"
  pending :: "nat list"
  fresh :: nat
  sent :: "(point \<times> real) list"

text \<open>\<^verbatim>\<open>window.clearTimeout(timerRef.current)\<close> when the ref is not \<^verbatim>\<open>null\<close>.\<close>

definition clearTimer :: "canvas \<Rightarrow> canvas" where
  "clearTimer s =
     (case timerRef s of None \<Rightarrow> s | Some h \<Rightarrow> s\<lparr>pending := removeAll h (pending s)\<rparr>)"



text \<open>
  \<^verbatim>\<open>rNat = Math.max(1, Math.round(rDisp * sx))\<close> (lines 465, 482, 503).
\<close>

definition naturalRadius :: "props \<Rightarrow> real \<Rightarrow> real" where
  "naturalRadius p rDisp = max 1 (of_int (js_round (rDisp * getScaleX p)))"


text \<open>\<^verbatim>\<open>onPointerUp\<close> of KSpaceCanvas, lines 487-507.\<close>

definition canvas_onPointerUp :: "props \<Rightarrow> canvas \<Rightarrow> canvas" where
  "canvas_onPointerUp p s =
     (if disabled p then s
      else
        let wasDragging = dragging s; wasResizing = resizing s;
            s1 = s\<lparr>dragging := False, resizing := False\<rparr>
        in if \<not> wasDragging \<and> \<not> wasResizing then s1
           else
             let s2 = (case timerRef s1 of
                         None \<Rightarrow> s1
                       | Some h \<Rightarrow> (clearTimer s1)\<lparr>timerRef := None\<rparr>)
             in case bounds p of
                  None \<Rightarrow> s2
                | Some rc \<Rightarrow>
                    let rNat = naturalRadius p (orElse (localRadiusPx s) (radiusPx p))
                    in case orElseOpt (lastNatRef s2) (center p) of
                         None \<Rightarrow> s2
                       | Some latest \<Rightarrow> s2\<lparr>sent := sent s2 @ [(latest, rNat)]\<rparr>)"

subsection \<open>KSpaceOverlay\<close>

text \<open>
  The same for \<^verbatim>\<open>KSpaceOverlay\<close>, the component \<^verbatim>\<open>App.tsx\<close> mounts. Its timeout
  callbacks (lines 125-128 and 165-168) call \<^verbatim>\<open>onMove\<close> with the centre and the radius
  they captured when they were armed, so an armed timeout carries them. \<open>ov_sent\<close> lists
  the calls of \<^verbatim>\<open>onMove\<close> so far, oldest first.
\<close>

record overlay =
  ov_dragging :: bool
  ov_resizing :: bool
  ov_localCenter :: "point option"
  ov_localRadiusPx :: "real option"
  ov_timerRef :: "nat option"
  ov_lastNatRef :: "point option"
  ov_pending :: "(nat \<times> point \<times> real) list"
  ov_fresh :: nat
  ov_sent :: "(point \<times> real) list"

text \<open>
  \<^verbatim>\<open>radiusNatural\<close>, lines 67-73, is computed while the component renders, from the
  props and the state of that render and from the rectangle the container has at that
  moment (\<open>bounds p\<close>): in the render that first mounts the container there is none and
  the value is 0. The effect and the handlers of a render are closures over the value of
  their render; below it is their argument \<open>rn\<close>.
\<close>

definition radiusNatural :: "props \<Rightarrow> overlay \<Rightarrow> real" where
  "radiusNatural p s =
     (case bounds p of
        None \<Rightarrow> 0
      | Some rc \<Rightarrow>
          let sx = naturalWidth p / rwidth rc;
              rPx = orElse (ov_localRadiusPx s) (radiusPx p)
          in max 1 (of_int (js_round (rPx * sx))))"

text \<open>
  The effect of lines 75-80, with the dependencies \<^verbatim>\<open>[show, center]\<close>: React runs it
  after the first render and after every render in which \<^verbatim>\<open>show\<close> has changed or
  \<^verbatim>\<open>center\<close> is another object than in the render before. It does not look at
  \<^verbatim>\<open>disabled\<close>.
\<close>

definition overlay_effect :: "props \<Rightarrow> real \<Rightarrow> overlay \<Rightarrow> overlay" where
  "overlay_effect p rn s =
     (if \<not> shown p then s
      else case center p of
        None \<Rightarrow> s
      | Some c \<Rightarrow> if rn > 0 then s\<lparr>ov_sent := ov_sent s @ [(c, rn)]\<rparr> else s)"

text \<open>\<^verbatim>\<open>onPointerDown\<close> of KSpaceOverlay, lines 82-98.\<close>

definition overlay_onPointerDown :: "props \<Rightarrow> overlay \<Rightarrow> point \<Rightarrow> overlay" where
  "overlay_onPointerDown p s client =
     (if \<not> shown p \<or> disabled p then s
      else case bounds p of
        None \<Rightarrow> s
      | Some rc \<Rightarrow>
          let r = radiusPx p;
              disp = clampDisplay p (fst client - rleft rc, snd client - rtop rc) r;
              natPt = toNatural p disp
          in s\<lparr>ov_localCenter := Some natPt, ov_lastNatRef := Some natPt, ov_dragging := True\<rparr>)"





text \<open>
  The handlers of the resize handle, lines 134-171. As for the canvas, the call
  \<^verbatim>\<open>onResize?.(Math.round(newR))\<close> only reports the radius to the host and is left out.
\<close>

definition overlay_onResizeDown :: "props \<Rightarrow> overlay \<Rightarrow> overlay" where
  "overlay_onResizeDown p s =
     (if \<not> shown p \<or> disabled p then s else s\<lparr>ov_resizing := True\<rparr>)"

definition overlay_onResizeMove :: "props \<Rightarrow> overlay \<Rightarrow> point \<Rightarrow> overlay" where
  "overlay_onResizeMove p s client =
     (if \<not> shown p \<or> \<not> ov_resizing s \<or> disabled p then s
      else case bounds p of
        None \<Rightarrow> s
      | Some rc \<Rightarrow>
          (case orElseOpt (ov_localCenter s) (center p) of
             None \<Rightarrow> s
           | Some effCenter \<Rightarrow>
               let dc = toDisplay p effCenter;
                   dx = (fst client - rleft rc) - fst dc;
                   dy = (snd client - rtop rc) - snd dc;
                   rawR = sqrt (dx * dx + dy * dy);
                   maxR = min (min (fst dc) (snd dc))
                              (min (rwidth rc - fst dc) (rheight rc - snd dc));
                   newR = max 5 (min maxR rawR)
               in s\<lparr>ov_localRadiusPx := Some newR\<rparr>))"


text \<open>
  The cleanup of lines 173-178 cancels the timeout when the component is unmounted;
  unmounting is not modelled.

  Expiry of the overlay's timeout with handle \<open>h\<close>: the callback of lines 125-128 or
  165-168 runs if the timeout is still armed. In \<^verbatim>\<open>App.tsx\<close> the \<^verbatim>\<open>onMove\<close> it calls
  is \<open>onOverlayMove\<close>, which makes the centre it is handed the new \<^verbatim>\<open>center\<close> prop; when
  that is another object than before, the effect of lines 75-80 runs after the next
  render (\<open>overlay_effect\<close>).
\<close>

definition overlay_fire :: "nat \<Rightarrow> overlay \<Rightarrow> overlay" where
  "overlay_fire h s =
     (case filter (\<lambda>t. fst t = h) (ov_pending s) of
        [] \<Rightarrow> s
      | (h', latest, r) # _ \<Rightarrow>
          s\<lparr>ov_pending := filter (\<lambda>t. fst t \<noteq> h) (ov_pending s),
            ov_timerRef := None,
            ov_sent := ov_sent s @ [(latest, r)]\<rparr>)"

subsection \<open>Gestures in progress\<close>

text \<open>
  \<open>armed\<close>: the only timeout of the canvas that can be armed is the one \<^verbatim>\<open>timerRef\<close>
  holds, which is so initially and after every handler. \<open>active\<close>: a drag or resize
  gesture is in progress on a canvas that is shown, enabled and mounted (for a resize,
  with a centre to resize around), so that \<^verbatim>\<open>onPointerMove\<close> does not return early.
  \<open>sameGesture\<close>: two states of one gesture; a drag does not touch the radius, a
  resize does not touch the centre. \<open>dragOn\<close>: a drag is in progress on an overlay that
  is shown, enabled and mounted.
\<close>

definition armed :: "canvas \<Rightarrow> bool" where
  "armed s \<longleftrightarrow> pending s = (case timerRef s of None \<Rightarrow> [] | Some h \<Rightarrow> [h])"



definition dragOn :: "props \<Rightarrow> overlay \<Rightarrow> bool" where
  "dragOn p s \<longleftrightarrow> shown p \<and> \<not> disabled p \<and> bounds p \<noteq> None \<and> ov_dragging s"

section \<open>Notions of the specification\<close>


text \<open>
  The masked spectrum as the specification words it (4.1): every coefficient whose
  position \<open>(x, y)\<close> lies outside the circle \<open>(x - cx)\<^sup>2 + (y - cy)\<^sup>2 \<le> radius\<^sup>2\<close> is zero,
  the others (the boundary included) are kept. It is compared below with what the two
  masked inverse paths hand to the inverse transform.
\<close>

definition spec_masked :: "complex list list \<Rightarrow> nat \<Rightarrow> nat \<Rightarrow> real \<Rightarrow> real \<Rightarrow> real \<Rightarrow> complex list list" where
  "spec_masked S rows cols cx cy radius =
     map (\<lambda>y. map (\<lambda>x. if (real x - cx)\<^sup>2 + (real y - cy)\<^sup>2 \<le> radius\<^sup>2 then S ! y ! x else 0)
              [0..<cols]) [0..<rows]"

text \<open>
  The spectrum that two planes hold: the coefficient at position \<open>(x, y)\<close> has its real
  and imaginary part at index \<open>y * cols + x\<close> (\<^verbatim>\<open>flattenSpectrum\<close>, App.tsx lines 53-70,
  writes them there).
\<close>

definition heldSpectrum :: "real list \<Rightarrow> real list \<Rightarrow> nat \<Rightarrow> nat \<Rightarrow> complex list list" where
  "heldSpectrum re im rows cols =
     map (\<lambda>y. map (\<lambda>x. Complex (re ! (y * cols + x)) (im ! (y * cols + x))) [0..<cols]) [0..<rows]"


text \<open>
  A \<open>rows \<times> cols\<close> image of packed 4-channel grayscale with full opacity: red, green
  and blue of every pixel are the same byte and alpha is 255.
\<close>

definition grayscale :: "nat \<Rightarrow> nat \<Rightarrow> int list \<Rightarrow> bool" where
  "grayscale rows cols px \<longleftrightarrow>
     length px = rows * cols * 4 \<and>
     (\<forall>y<rows. \<forall>x<cols.
        let i = (y * cols + x) * 4
        in px ! (i + 1) = px ! i \<and> px ! (i + 2) = px ! i \<and> 0 \<le> px ! i \<and> px ! i \<le> 255
           \<and> px ! (i + 3) = 255)"

text \<open>A message that asks for a reconstruction.\<close>

fun isCircleRecon :: "in_msg \<Rightarrow> bool" where
  "isCircleRecon (CircleRecon _ _ _) = True"
| "isCircleRecon _ = False"

section \<open>The 1D inverse transform undoes the forward transform\<close>

lemma omega_pow: "omega n ^ k = cis (- (2 * pi * real k / real n))"
proof -
  have "real k * - (2 * pi / real n) = - (2 * pi * real k / real n)" by simp
  then show ?thesis by (simp only: omega_def DeMoivre)
qed

lemma inv_omega_pow: "inverse (omega n) ^ k = cis (2 * pi * real k / real n)"
proof -
  have "real k * (2 * pi / real n) = 2 * pi * real k / real n" by simp
  moreover have "inverse (omega n) = cis (2 * pi / real n)" by (simp add: omega_def)
  ultimately show ?thesis by (simp only: DeMoivre)
qed

lemma cis_frac_eq_1:
  assumes "cis (2 * pi * real_of_int d / real n) = 1" "0 < n"
  shows "\<exists>k::int. d = k * int n"
proof -
  have "Re (cis (2 * pi * real_of_int d / real n)) = 1"
    using assms(1) by simp
  then have "cos (2 * pi * real_of_int d / real n) = 1"
    by simp
  then obtain k :: int where k: "2 * pi * real_of_int d / real n = real_of_int k * 2 * pi"
    using cos_one_2pi_int by auto
  have "real_of_int d = real_of_int k * real n"
    using k assms(2) by (simp add: field_simps)
  then have "real_of_int d = real_of_int (k * int n)"
    by simp
  then have "d = k * int n"
    by (simp only: of_int_eq_iff)
  then show ?thesis ..
qed

lemma twiddle_prod:
  "omega n ^ (m * k) * inverse (omega n) ^ (j * k)
     = cis (2 * pi * real_of_int (int j - int m) / real n) ^ k"
proof -
  have "- (2 * pi * real (m * k) / real n) + 2 * pi * real (j * k) / real n
      = real k * (2 * pi * real_of_int (int j - int m) / real n)"
    by (cases "n = 0") (simp_all add: field_simps)
  then show ?thesis
    by (simp only: omega_pow inv_omega_pow DeMoivre cis_mult)
qed

lemma orthogonality:
  assumes "j < n" "m < n"
  shows "(\<Sum>k<n. omega n ^ (m * k) * inverse (omega n) ^ (j * k)) = (if j = m then of_nat n else 0)"
proof (cases "j = m")
  case True
  then show ?thesis by (simp add: twiddle_prod)
next
  case False
  define r where "r = cis (2 * pi * real_of_int (int j - int m) / real n)"
  have n: "0 < n" using assms by simp
  have "r \<noteq> 1"
  proof
    assume "r = 1"
    then obtain k :: int where k: "int j - int m = k * int n"
      using cis_frac_eq_1 [OF _ n] unfolding r_def by blast
    have "\<bar>int j - int m\<bar> < int n" using assms by simp
    then have "\<bar>k\<bar> * int n < 1 * int n" by (simp add: k abs_mult)
    then have "\<bar>k\<bar> < 1" using n by (simp only: mult_less_cancel_right)
    then have "k = 0" by simp
    with k False show False by simp
  qed
  moreover have "r ^ n = 1"
    using n by (simp add: r_def DeMoivre)
  ultimately have "(\<Sum>k<n. r ^ k) = 0"
    by (simp add: geometric_sum)
  then show ?thesis using False by (simp add: twiddle_prod r_def)
qed

lemma length_fft: "length (fft xs) = length xs"
  by (simp add: fft_def Let_def)

lemma length_ifft: "length (ifft xs) = length xs"
  by (simp add: ifft_def Let_def)

lemma fft_nth:
  "k < length xs \<Longrightarrow> fft xs ! k = (\<Sum>j<length xs. xs ! j * omega (length xs) ^ (j * k))"
  by (simp add: fft_def Let_def interv_sum_list_conv_sum_set_nat atLeast0LessThan)

lemma ifft_nth:
  "j < length xs \<Longrightarrow>
     ifft xs ! j = (\<Sum>k<length xs. xs ! k * inverse (omega (length xs)) ^ (j * k)) / of_nat (length xs)"
  by (simp add: ifft_def Let_def interv_sum_list_conv_sum_set_nat atLeast0LessThan)

lemma ifft_fft: "ifft (fft xs) = xs"
proof (rule nth_equalityI)
  show "length (ifft (fft xs)) = length xs"
    by (simp add: length_fft length_ifft)
next
  fix j
  assume "j < length (ifft (fft xs))"
  then have j: "j < length xs" by (simp add: length_fft length_ifft)
  define n where "n = length xs"
  define w where "w = omega n"
  have n: "j < n" "0 < n" using j by (auto simp: n_def)
  have "(\<Sum>k<n. fft xs ! k * inverse w ^ (j * k))
      = (\<Sum>k<n. \<Sum>m<n. xs ! m * (w ^ (m * k) * inverse w ^ (j * k)))"
    by (rule sum.cong) (simp_all add: fft_nth n_def w_def sum_distrib_right mult.assoc)
  also have "\<dots> = (\<Sum>m<n. \<Sum>k<n. xs ! m * (w ^ (m * k) * inverse w ^ (j * k)))"
    by (rule sum.swap)
  also have "\<dots> = (\<Sum>m<n. xs ! m * (if j = m then of_nat n else 0))"
    by (rule sum.cong) (simp_all add: sum_distrib_left [symmetric] orthogonality n w_def)
  also have "\<dots> = xs ! j * of_nat n"
    using n by (simp add: if_distrib [of "\<lambda>c. _ * c"] cong: if_cong)
  finally have "(\<Sum>k<n. fft xs ! k * inverse w ^ (j * k)) / of_nat n = xs ! j"
    using n by simp
  then show "ifft (fft xs) ! j = xs ! j"
    using j by (simp add: ifft_nth length_fft n_def w_def)
qed

section \<open>The pixel loops\<close>

lemma length_putPixel: "length (putPixel px i v) = length px"
  by (simp add: putPixel_def)

lemma putPixel_other: "k < i \<or> i + 4 \<le> k \<Longrightarrow> putPixel px i v ! k = px ! k"
  by (auto simp: putPixel_def)

lemma putPixel_at:
  assumes "i + 3 < length px" "c < 4"
  shows "putPixel px i v ! (i + c) = (if c = 3 then 255 else v)"
proof -
  from assms(2) consider "c = 0" | "c = 1" | "c = 2" | "c = 3" by linarith
  then show ?thesis
    using assms(1) by cases (simp_all add: putPixel_def nth_list_update)
qed

lemma pixelRow_Suc: "pixelRow b base px (Suc n) = putPixel (pixelRow b base px n) ((base + n) * 4) (b n)"
  by (simp add: pixelRow_def)

lemma length_pixelRow: "length (pixelRow b base px n) = length px"
  by (induction n) (simp_all add: pixelRow_Suc length_putPixel, simp add: pixelRow_def)

lemma pixelRow_other:
  "k < base * 4 \<or> (base + n) * 4 \<le> k \<Longrightarrow> pixelRow b base px n ! k = px ! k"
proof (induction n)
  case 0
  then show ?case by (simp add: pixelRow_def)
next
  case (Suc n)
  then have "k < (base + n) * 4 \<or> (base + n) * 4 + 4 \<le> k" by auto
  then have "pixelRow b base px (Suc n) ! k = pixelRow b base px n ! k"
    by (simp only: pixelRow_Suc putPixel_other)
  also have "\<dots> = px ! k" using Suc by auto
  finally show ?case .
qed

lemma pixelRow_at:
  assumes "x < n" "(base + n) * 4 \<le> length px" "c < 4"
  shows "pixelRow b base px n ! ((base + x) * 4 + c) = (if c = 3 then 255 else b x)"
  using assms
proof (induction n)
  case 0
  then show ?case by simp
next
  case (Suc n)
  show ?case
  proof (cases "x = n")
    case True
    have "(base + n) * 4 + 3 < length (pixelRow b base px n)"
      using Suc.prems by (simp add: length_pixelRow)
    then show ?thesis
      using Suc.prems(3) True by (simp only: pixelRow_Suc putPixel_at)
  next
    case False
    then have x: "x < n" using Suc.prems by simp
    then have "(base + x) * 4 + c < (base + n) * 4" using Suc.prems(3) by simp
    then have "pixelRow b base px (Suc n) ! ((base + x) * 4 + c) = pixelRow b base px n ! ((base + x) * 4 + c)"
      by (simp add: pixelRow_Suc putPixel_other del: mult_Suc_right)
    then show ?thesis using Suc x by simp
  qed
qed


lemma pixelRows_Suc: "pixelRows b cols px (Suc n) = pixelRow (b n) (n * cols) (pixelRows b cols px n) cols"
  by (simp add: pixelRows_def)

lemma length_pixelRows: "length (pixelRows b cols px n) = length px"
  by (induction n) (simp_all add: pixelRows_Suc length_pixelRow, simp add: pixelRows_def)

lemma slot_less: "y < n \<Longrightarrow> x < cols \<Longrightarrow> y * cols + x < n * (cols::nat)"
proof -
  assume a: "y < n" "x < cols"
  then have "y * cols + x < Suc y * cols" by simp
  also have "\<dots> \<le> n * cols" using a by (intro mult_le_mono1) simp
  finally show ?thesis .
qed

lemma pixelRows_at:
  assumes "y < n" "x < cols" "n * cols * 4 \<le> length px" "c < 4"
  shows "pixelRows b cols px n ! ((y * cols + x) * 4 + c) = (if c = 3 then 255 else b y x)"
  using assms
proof (induction n)
  case 0
  then show ?case by simp
next
  case (Suc n)
  have len: "(n * cols + cols) * 4 \<le> length (pixelRows b cols px n)"
    using Suc.prems(3) by (simp add: length_pixelRows algebra_simps)
  show ?case
  proof (cases "y = n")
    case True
    then show ?thesis
      using pixelRow_at [OF Suc.prems(2) len Suc.prems(4), of "b n"]
      by (simp only: pixelRows_Suc)
  next
    case False
    then have y: "y < n" using Suc.prems by simp
    have "y * cols + x < n * cols" using y Suc.prems(2) by (rule slot_less)
    then have "(y * cols + x) * 4 + c < n * cols * 4" using Suc.prems(4) by simp
    then have "pixelRows b cols px (Suc n) ! ((y * cols + x) * 4 + c)
        = pixelRows b cols px n ! ((y * cols + x) * 4 + c)"
      by (simp add: pixelRows_Suc pixelRow_other)
    moreover have "n * cols * 4 \<le> length px" using Suc.prems(3) by simp
    ultimately show ?thesis using Suc.IH y Suc.prems(2,4) by simp
  qed
qed

lemma length_fillPixels: "length (fillPixels vals minV scale rows cols) = rows * cols * 4"
  by (simp add: fillPixels_def length_pixelRows)

lemma fillPixels_at:
  assumes "y < rows" "x < cols" "c < 4"
  shows "fillPixels vals minV scale rows cols ! ((y * cols + x) * 4 + c)
           = (if c = 3 then 255 else toByte (vals ! y ! x) minV scale)"
  using pixelRows_at [OF assms(1,2) _ assms(3)] by (simp add: fillPixels_def)

section \<open>Properties of the mask\<close>

lemma inside_iff:
  "inside cx cy radius x y \<longleftrightarrow> (real x - cx)\<^sup>2 + (real y - cy)\<^sup>2 \<le> radius\<^sup>2"
  by (simp add: inside_def Let_def power2_eq_square)

lemma set_included:
  "set (included rows cols cx cy radius) =
     {(x, y). x < cols \<and> y < rows \<and> inside cx cy radius x y}"
  by (auto simp: included_def)

text \<open>
  What the two paths hand to the inverse transform: \<^verbatim>\<open>masked\<close> of
  \<^verbatim>\<open>renderReconFromCircle\<close> is the masked spectrum; the columns \<^verbatim>\<open>col\<close> of the worker
  are the columns of the masked spectrum that the planes hold, when the planes have a
  cell for every position.
\<close>

lemma masked_eq: "masked S rows cols cx cy radius = spec_masked S rows cols cx cy radius"
  by (simp add: masked_def spec_masked_def inside_iff)

lemma those_map_Some: "those (map (\<lambda>x. Some (f x)) xs) = Some (map f xs)"
  by (induction xs) simp_all

lemma complexAt_held:
  assumes "y < rows" "x < cols" "rows * cols \<le> length re" "rows * cols \<le> length im"
  shows "complexAt re im cols x y = Some (heldSpectrum re im rows cols ! y ! x)"
proof -
  have "y * cols + x < rows * cols" using assms(1,2) by (rule slot_less)
  then have "y * cols + x < length re" "y * cols + x < length im"
    using assms(3,4) by simp_all
  then show ?thesis
    using assms(1,2) by (simp add: complexAt_def idx_def js_nth_def heldSpectrum_def Let_def)
qed

lemma maskedCol_held:
  assumes "x < cols" "rows * cols \<le> length re" "rows * cols \<le> length im"
  shows "maskedCol re im rows cols cx cy radius x
           = map (\<lambda>y. Some (spec_masked (heldSpectrum re im rows cols) rows cols cx cy radius ! y ! x))
               [0..<rows]"
  unfolding maskedCol_def
proof (rule map_cong [OF refl])
  fix y
  assume "y \<in> set [0..<rows]"
  then have y: "y < rows" by simp
  show "(if inside cx cy radius x y then complexAt re im cols x y else Some 0)
      = Some (spec_masked (heldSpectrum re im rows cols) rows cols cx cy radius ! y ! x)"
    using y assms(1) complexAt_held [OF y assms]
    by (simp add: spec_masked_def inside_iff)
qed

lemma workerRecon_held:
  assumes "rows * cols \<le> length re" "rows * cols \<le> length im"
  shows "workerRecon re im rows cols cx cy radius
           = Some (reconGrid (spec_masked (heldSpectrum re im rows cols) rows cols cx cy radius)
                     rows cols)"
proof -
  let ?M = "spec_masked (heldSpectrum re im rows cols) rows cols cx cy radius"
  have "map (\<lambda>x. those (maskedCol re im rows cols cx cy radius x)) [0..<cols]
      = map (\<lambda>x. Some (map (\<lambda>y. ?M ! y ! x) [0..<rows])) [0..<cols]"
  proof (rule map_cong [OF refl])
    fix x
    assume "x \<in> set [0..<cols]"
    then have "x < cols" by simp
    from maskedCol_held [OF this assms]
    show "those (maskedCol re im rows cols cx cy radius x) = Some (map (\<lambda>y. ?M ! y ! x) [0..<rows])"
      by (simp only: those_map_Some)
  qed
  then have "those (map (\<lambda>x. those (maskedCol re im rows cols cx cy radius x)) [0..<cols])
      = Some (map (\<lambda>x. map (\<lambda>y. ?M ! y ! x) [0..<rows]) [0..<cols])"
    by (simp only: those_map_Some)
  then show ?thesis
    by (simp add: workerRecon_def reconGrid_def)
qed

section \<open>Rescaling: minimum, maximum and bytes\<close>





text \<open>
  Rounding to a double: the integer chosen is within one half of the scaled value, so
  the double is within the relative error \<open>2 ^ (- 53)\<close> of the exact result; it is zero
  only for zero and keeps the sign.
\<close>

lemma rne_near: "\<bar>of_int (rne y) - y\<bar> \<le> 1 / 2"
  unfolding rne_def Let_def by (auto simp: abs_if) linarith+

lemma fl_0: "fl 0 = 0"
  by (simp add: fl_def)

lemma powi_floor_log_le:
  assumes "x \<noteq> 0"
  shows "2 powi \<lfloor>log 2 \<bar>x\<bar>\<rfloor> \<le> \<bar>x\<bar>"
proof -
  have "of_int \<lfloor>log 2 \<bar>x\<bar>\<rfloor> \<le> log 2 \<bar>x\<bar>" by simp
  hence "2 powr (of_int \<lfloor>log 2 \<bar>x\<bar>\<rfloor>) \<le> \<bar>x\<bar>"
    using assms by (subst (asm) le_log_iff) auto
  thus ?thesis by (simp add: powr_real_of_int')
qed

lemma fl_error: "\<bar>fl x - x\<bar> \<le> \<bar>x\<bar> / 2 ^ 53"
proof (cases "x = 0")
  case True
  thus ?thesis by (simp add: fl_0)
next
  case False
  define e where "e = \<lfloor>log 2 \<bar>x\<bar>\<rfloor>"
  define y where "y = x * 2 powi (52 - e)"
  have s: "(2::real) powi (52 - e) * 2 powi (e - 52) = 1"
    by (simp flip: power_int_add)
  have "fl x = of_int (rne y) * 2 powi (e - 52)"
    using False by (simp add: fl_def e_def y_def Let_def)
  moreover have "x = y * 2 powi (e - 52)"
    unfolding y_def using s by (simp add: mult.assoc)
  ultimately have "fl x - x = (of_int (rne y) - y) * 2 powi (e - 52)"
    by (simp add: algebra_simps)
  hence "\<bar>fl x - x\<bar> = \<bar>of_int (rne y) - y\<bar> * 2 powi (e - 52)"
    by (simp add: abs_mult)
  also have "\<dots> \<le> 1 / 2 * 2 powi (e - 52)"
    by (rule mult_right_mono [OF rne_near]) simp
  also have "\<dots> = 2 powi e / 2 ^ 53"
    by (simp add: power_int_diff)
  also have "\<dots> \<le> \<bar>x\<bar> / 2 ^ 53"
    using powi_floor_log_le [OF False] by (simp add: e_def divide_right_mono)
  finally show ?thesis .
qed

lemma fl_pos:
  assumes "0 < x"
  shows "0 < fl x"
proof -
  have "\<bar>fl x - x\<bar> \<le> x / 2 ^ 53" using fl_error [of x] assms by simp
  moreover have "x / 2 ^ 53 < x" using assms by simp
  ultimately show ?thesis by linarith
qed



text \<open>
  The bytes: always in range; the least value of a grid is written as 0 and, when the
  grid is not constant, the greatest as 255, whatever the rounding of the scale.
\<close>

lemma toByte_range: "0 \<le> toByte v m s \<and> toByte v m s \<le> 255"
  by (cases m) simp_all

lemma toByte_min: "toByte m (Some m) sc = 0"
  by (simp add: fl_0 js_round_def)

lemma round_fl_255:
  assumes "0 < d"
  shows "js_round (fl (d * fl (255 / d))) = 255"
proof -
  define q where "q = fl (255 / d)"
  define u :: real where "u = 1 / 2 ^ 53"
  have u: "0 < u" "u < 1 / 10000" by (simp_all add: u_def)
  have "\<bar>q - 255 / d\<bar> \<le> \<bar>255 / d\<bar> / 2 ^ 53"
    unfolding q_def by (rule fl_error)
  hence "\<bar>q - 255 / d\<bar> \<le> 255 / d * u"
    using assms by (simp add: u_def)
  hence "\<bar>q - 255 / d\<bar> * d \<le> 255 / d * u * d"
    using assms by (intro mult_right_mono) simp_all
  moreover have "\<bar>q - 255 / d\<bar> * d = \<bar>(q - 255 / d) * d\<bar>"
    using assms by (simp add: abs_mult)
  moreover have "(q - 255 / d) * d = d * q - 255"
    using assms by (simp add: field_simps)
  moreover have "255 / d * u * d = 255 * u"
    using assms by simp
  ultimately have "\<bar>d * q - 255\<bar> \<le> 255 * u"
    by simp
  hence p: "255 - 255 * u \<le> d * q" "d * q \<le> 255 + 255 * u" by linarith+
  have "\<bar>fl (d * q) - d * q\<bar> \<le> \<bar>d * q\<bar> / 2 ^ 53" by (rule fl_error)
  hence "\<bar>fl (d * q) - d * q\<bar> \<le> \<bar>d * q\<bar> * u" by (simp add: u_def)
  moreover have "\<bar>d * q\<bar> \<le> 256" using p u by (simp add: abs_if)
  hence "\<bar>d * q\<bar> * u \<le> 256 * u" using u by (intro mult_right_mono) simp_all
  ultimately have "\<bar>fl (d * q) - d * q\<bar> \<le> 256 * u" by linarith
  hence "254 + 1 / 2 \<le> fl (d * q)" "fl (d * q) < 255 + 1 / 2"
    using p u by linarith+
  hence "\<lfloor>fl (d * q) + 1 / 2\<rfloor> = 255" by (subst floor_unique [where z = 255]) simp_all
  thus ?thesis by (simp add: js_round_def q_def)
qed

lemma toByte_max:
  assumes "lo < hi"
  shows "toByte hi (Some lo) (scaleOf (Some lo) (Some hi)) = 255"
proof -
  have "0 < fl (hi - lo)" using assms by (intro fl_pos) simp
  from round_fl_255 [OF this] assms show ?thesis by simp
qed


lemma length_pixelsOf: "length (pixelsOf vals rows cols) = rows * cols * 4"
  by (simp add: pixelsOf_def Let_def length_fillPixels)
















lemma reconFromCircle_eq:
  "workerRecon re im rows cols cx cy radius = Some recon \<Longrightarrow>
     reconFromCircle (int rows) (int cols) re im cx cy radius = Inr (pixelsOf recon rows cols)"
  by (simp add: reconFromCircle_def)

lemma grayscale_fillPixels: "grayscale rows cols (fillPixels vals minV scale rows cols)"
proof -
  have "fillPixels vals minV scale rows cols ! ((y * cols + x) * 4 + c)
          = (if c = 3 then 255 else toByte (vals ! y ! x) minV scale)"
    if "y < rows" "x < cols" "c < 4" for y x c
    using that by (rule fillPixels_at)
  from this [of _ _ 0] this [of _ _ 1] this [of _ _ 2] this [of _ _ 3]
  show ?thesis
    by (simp add: grayscale_def Let_def length_fillPixels toByte_range)
qed

lemma grayscale_pixelsOf: "grayscale rows cols (pixelsOf vals rows cols)"
  by (simp only: pixelsOf_def Let_def grayscale_fillPixels)

lemma reconFromCircle_Inr:
  assumes "reconFromCircle R C re im cx cy radius = Inr px"
  shows "0 \<le> R \<and> (0 < R \<longrightarrow> 0 \<le> C) \<and> grayscale (nat R) (nat C) px"
  using assms
  by (auto simp: reconFromCircle_def Let_def grayscale_pixelsOf split: if_splits option.splits)

section \<open>Small transforms, evaluated\<close>

lemma upt_0_2: "[0..<2] = [0, 1]"
  by (simp add: eval_nat_numeral)

lemma upt_0_4: "[0..<4] = [0, 1, 2, 3]"
  by (simp add: eval_nat_numeral)

lemma cis_neg: "cis (- a) = cnj (cis a)"
  by (simp only: cis_cnj)

lemma omega_1: "omega (Suc 0) = 1"
  by (simp add: omega_def cis_neg)

lemma omega_2: "omega (Suc (Suc 0)) = - 1"
  by (simp add: omega_def cis_neg)

lemma fft_1: "fft [a] = [a]"
  by (simp add: fft_def)

lemma ifft_1: "ifft [a] = [a]"
  by (simp add: ifft_def)

lemma fft_2: "fft [a, b] = [a + b, a - b]"
  by (simp add: fft_def omega_2 upt_rec_numeral)

lemma ifft_2: "ifft [a, b] = [(a + b) / 2, (a - b) / 2]"
  by (simp add: ifft_def omega_2 upt_rec_numeral)

section \<open>The worker before and after a load\<close>

lemma onmessage_initial:
  "onmessage initial (CircleRecon cx cy radius) = (initial, Error Spectrum_not_loaded)"
  by (simp add: onmessage_def initial_def)

lemma run_before_load:
  "list_all isCircleRecon ms \<Longrightarrow>
     run initial ms = (initial, map (\<lambda>_. Error Spectrum_not_loaded) ms)"
proof (induction ms)
  case Nil
  then show ?case by simp
next
  case (Cons m ms)
  then obtain cx cy radius where "m = CircleRecon cx cy radius"
    by (cases m) simp_all
  then show ?case using Cons by (simp add: onmessage_initial)
qed

section \<open>A 2 by 2 reconstruction, evaluated\<close>

text \<open>
  The planes hold the spectrum with 4 at position \<open>(0, 0)\<close> and 0 elsewhere; the mask of
  radius 2 around \<open>(1, 1)\<close> keeps all four coefficients.
\<close>

lemma workerRecon_example: "workerRecon [4, 0, 0, 0] [0, 0, 0, 0] 2 2 1 1 2 = Some [[1, - 1], [- 1, 1]]"
  by (simp add: workerRecon_def maskedCol_def inside_def complexAt_def idx_def js_nth_def
      columnsIfft_def rowsIfft_def ifft_2 sign_def eval_nat_numeral Let_def complex_eq_iff)

lemma replicate_16: "replicate 16 (0::int) = [0, 0, 0, 0, 0, 0, 0, 0, 0, 0, 0, 0, 0, 0, 0, 0]"
  by code_simp

lemma pixelsOf_example: "pixelsOf [[1, - 1], [- 1, 1]] 2 2
    = [255, 255, 255, 255, 0, 0, 0, 255, 0, 0, 0, 255, 255, 255, 255, 255]"
proof -
  have m: "minOf [[1, - 1], [- 1, 1]] = Some (- 1)" "maxOf [[1, - 1], [- 1, 1]] = Some 1"
    by (simp_all add: minOf_def maxOf_def)
  have b: "toByte 1 (Some (- 1)) (scaleOf (Some (- 1)) (Some 1)) = 255"
    by (rule toByte_max) simp
  show ?thesis
    by (simp add: pixelsOf_def m fillPixels_def pixelRows_def pixelRow_def putPixel_def upt_0_2
        replicate_16 toByte_min b del: toByte.simps scaleOf.simps)
qed

lemma reconFromCircle_example: "reconFromCircle 2 2 [4, 0, 0, 0] [0, 0, 0, 0] 1 1 2
    = Inr [255, 255, 255, 255, 0, 0, 0, 255, 0, 0, 0, 255, 255, 255, 255, 255]"
  using reconFromCircle_eq [OF workerRecon_example] by (simp add: pixelsOf_example)

lemma onmessage_example:
  "onmessage \<lparr>ROWS = 2, COLS = 2, SPEC_RE = Some [4, 0, 0, 0], SPEC_IM = Some [0, 0, 0, 0]\<rparr>
       (CircleRecon 1 1 2)
     = (\<lparr>ROWS = 2, COLS = 2, SPEC_RE = Some [4, 0, 0, 0], SPEC_IM = Some [0, 0, 0, 0]\<rparr>,
        Recon 2 2 [255, 255, 255, 255, 0, 0, 0, 255, 0, 0, 0, 255, 255, 255, 255, 255])"
  by (simp add: onmessage_def reconFromCircle_example)








section \<open>Claims about the mask\<close>

text \<open>
  Claim C2. For every spectrum and every mask \<open>{cx, cy, radius}\<close>, the masked inverse
  path applies the inverse transform to the spectrum in which exactly the coefficients
  at the positions \<open>(x, y)\<close> with \<open>(x - cx)\<^sup>2 + (y - cy)\<^sup>2 \<le> radius\<^sup>2\<close> are kept, the boundary
  included, and every other coefficient is complex zero: what
  \<^verbatim>\<open>renderReconFromCircle\<close> paints is the image of the inverse transform \<open>reconGrid\<close>
  of that masked spectrum, and the array \<^verbatim>\<open>recon\<close> and the pixels of the worker's
  \<^verbatim>\<open>reconFromCircle\<close> are those of the inverse transform of the masked spectrum that
  its planes hold. For the worker the planes are taken to have a cell for every
  position, as the planes that \<^verbatim>\<open>flattenSpectrum\<close> builds have.
\<close>

theorem mask_keeps_circle:
  assumes "rows * cols \<le> length re" "rows * cols \<le> length im"
  shows "renderReconFromCircle S rows cols cx cy radius
           = toImage (reconGrid (spec_masked S rows cols cx cy radius) rows cols) rows cols
       \<and> workerRecon re im rows cols cx cy radius
           = Some (reconGrid (spec_masked (heldSpectrum re im rows cols) rows cols cx cy radius)
                     rows cols)
       \<and> reconFromCircle (int rows) (int cols) re im cx cy radius
           = Inr (pixelsOf
                    (reconGrid (spec_masked (heldSpectrum re im rows cols) rows cols cx cy radius)
                       rows cols)
                    rows cols)"
  using workerRecon_held [OF assms, of cx cy radius]
  by (simp add: renderReconFromCircle_def renderReconFromSpectrum_def masked_eq
      reconFromCircle_eq)

theorem mask_keeps_circle_witness:
  "renderReconFromCircle [[1, 2], [3, 4]] 2 2 1 1 1 = toImage (reconGrid [[0, 2], [3, 4]] 2 2) 2 2
   \<and> workerRecon [1, 2, 3, 4] [0, 0, 0, 0] 2 2 1 1 1 = Some (reconGrid [[0, 2], [3, 4]] 2 2)
   \<and> reconFromCircle 2 2 [1, 2, 3, 4] [0, 0, 0, 0] 1 1 1
       = Inr (pixelsOf (reconGrid [[0, 2], [3, 4]] 2 2) 2 2)"
  using mask_keeps_circle [of 2 2 "[1, 2, 3, 4]" "[0, 0, 0, 0]" "[[1, 2], [3, 4]]" 1 1 1]
  by (simp add: spec_masked_def heldSpectrum_def upt_0_2 power2_eq_square
      complex_of_real_def [symmetric])

text \<open>
  Claim C5. For a fixed spectrum and a fixed centre \<open>(cx, cy)\<close>, the positions a mask of
  radius \<open>R1\<close> includes are among those a mask of radius \<open>R2 > R1\<close> includes. Radii are
  those of a Mask (spec 3: \<open>radius \<ge> 1\<close>; the controller sends
  \<^verbatim>\<open>Math.max(1, ...)\<close>), so \<open>R1\<close> is taken non-negative; the code squares the radius.
\<close>

theorem mask_monotone:
  assumes "0 \<le> R1" "R1 < R2"
  shows "set (included rows cols cx cy R1) \<subseteq> set (included rows cols cx cy R2)"
proof -
  have "R1\<^sup>2 \<le> R2\<^sup>2" using assms by (simp add: power_mono)
  then show ?thesis
    by (auto simp: set_included inside_iff)
qed

theorem mask_monotone_witness:
  "set (included 3 3 1 1 1) \<subseteq> set (included 3 3 1 1 2)"
  using mask_monotone [of 1 2 3 3 1 1] by simp

section \<open>Claims about the bytes\<close>




text \<open>
  Claim C10. Every successful reconstruction result is a pixel buffer of length
  \<open>rows * cols * 4\<close> in which red, green and blue of every pixel are equal and lie in
  \<open>[0, 255]\<close> and alpha is 255: for the reply \<^verbatim>\<open>recon\<close> of the worker, and for the
  buffers \<^verbatim>\<open>renderReconFromSpectrum\<close> and \<^verbatim>\<open>renderReconFromCircle\<close> paint.
\<close>

theorem recon_is_opaque_grayscale:
  "(onmessage w (CircleRecon cx cy radius) = (w', Recon r c px)
      \<longrightarrow> 0 < r \<and> 0 < c \<and> grayscale (nat r) (nat c) px)
   \<and> (renderReconFromSpectrum S rows cols = Inr px' \<longrightarrow> grayscale rows cols px')
   \<and> (renderReconFromCircle S rows cols cx cy radius = Inr px'' \<longrightarrow> grayscale rows cols px'')"
proof (intro conjI impI)
  assume a: "onmessage w (CircleRecon cx cy radius) = (w', Recon r c px)"
  then obtain re im where
    l: "ROWS w \<noteq> 0" "COLS w \<noteq> 0" "r = ROWS w" "c = COLS w"
    and rc: "reconFromCircle (ROWS w) (COLS w) re im cx cy radius = Inr px"
    by (auto simp: onmessage_def split: option.splits if_splits sum.splits)
  from reconFromCircle_Inr [OF rc] l
  show "0 < r" "0 < c" "grayscale (nat r) (nat c) px" by auto
next
  assume "renderReconFromSpectrum S rows cols = Inr px'"
  then show "grayscale rows cols px'"
    by (auto simp: renderReconFromSpectrum_def toImage_def grayscale_pixelsOf split: if_splits)
next
  assume "renderReconFromCircle S rows cols cx cy radius = Inr px''"
  then show "grayscale rows cols px''"
    by (auto simp: renderReconFromCircle_def renderReconFromSpectrum_def toImage_def
        grayscale_pixelsOf split: if_splits)
qed

theorem recon_is_opaque_grayscale_witness:
  "onmessage \<lparr>ROWS = 2, COLS = 2, SPEC_RE = Some [4, 0, 0, 0], SPEC_IM = Some [0, 0, 0, 0]\<rparr>
       (CircleRecon 1 1 2)
     = (\<lparr>ROWS = 2, COLS = 2, SPEC_RE = Some [4, 0, 0, 0], SPEC_IM = Some [0, 0, 0, 0]\<rparr>,
        Recon 2 2 [255, 255, 255, 255, 0, 0, 0, 255, 0, 0, 0, 255, 255, 255, 255, 255])
   \<and> grayscale 2 2 [255, 255, 255, 255, 0, 0, 0, 255, 0, 0, 0, 255, 255, 255, 255, 255]"
  using recon_is_opaque_grayscale
    [of "\<lparr>ROWS = 2, COLS = 2, SPEC_RE = Some [4, 0, 0, 0], SPEC_IM = Some [0, 0, 0, 0]\<rparr>" 1 1 2
        "\<lparr>ROWS = 2, COLS = 2, SPEC_RE = Some [4, 0, 0, 0], SPEC_IM = Some [0, 0, 0, 0]\<rparr>" 2 2
        "[255, 255, 255, 255, 0, 0, 0, 255, 0, 0, 0, 255, 255, 255, 255, 255]"]
    onmessage_example
  by simp

section \<open>Claims about the worker\<close>

text \<open>
  Claim C4, as amended. A reconstruct request (\<^verbatim>\<open>circleRecon\<close>) that reaches the
  worker before any load request is answered by the error \<^verbatim>\<open>'Spectrum not loaded'\<close>,
  and the state stays as it was; after a load whose \<open>rows\<close> and \<open>cols\<close> are both
  non-zero, a reconstruct request is never answered by that error. (The guard of line
  98 also tests \<^verbatim>\<open>ROWS === 0 || COLS === 0\<close>: a load with a zero dimension leaves the
  worker answering \<^verbatim>\<open>'Spectrum not loaded'\<close>, see the counterexample.)
\<close>

theorem no_spectrum_loaded:
  assumes "list_all isCircleRecon ms" "r \<noteq> 0" "c \<noteq> 0"
  shows "run initial (ms @ [CircleRecon cx cy radius])
           = (initial, map (\<lambda>_. Error Spectrum_not_loaded) (ms @ [CircleRecon cx cy radius]))
       \<and> snd (onmessage (fst (onmessage w (LoadSpectrum r c re im))) (CircleRecon cx cy radius))
           \<noteq> Error Spectrum_not_loaded"
proof
  show "run initial (ms @ [CircleRecon cx cy radius])
           = (initial, map (\<lambda>_. Error Spectrum_not_loaded) (ms @ [CircleRecon cx cy radius]))"
    using assms(1) by (intro run_before_load) simp
  show "snd (onmessage (fst (onmessage w (LoadSpectrum r c re im))) (CircleRecon cx cy radius))
           \<noteq> Error Spectrum_not_loaded"
    using assms(2,3) by (simp add: onmessage_def split: sum.splits)
qed

theorem no_spectrum_loaded_witness:
  "run initial ([CircleRecon 5 5 3] @ [CircleRecon 1 1 2])
     = (initial, [Error Spectrum_not_loaded, Error Spectrum_not_loaded])
   \<and> snd (onmessage (fst (onmessage initial (LoadSpectrum 2 2 [4, 0, 0, 0] [0, 0, 0, 0])))
          (CircleRecon 1 1 2))
       \<noteq> Error Spectrum_not_loaded"
  using no_spectrum_loaded [of "[CircleRecon 5 5 3]" 2 2 1 1 2 initial "[4, 0, 0, 0]" "[0, 0, 0, 0]"]
  by simp

text \<open>
  Claim C4 as stated fails: after the load of a spectrum with zero rows and columns has
  completed, a reconstruct request still takes the \<^verbatim>\<open>'Spectrum not loaded'\<close> branch.
\<close>

theorem load_zero_counterexample:
  "snd (onmessage (fst (onmessage initial (LoadSpectrum 0 0 [] []))) (CircleRecon 0 0 1))
     = Error Spectrum_not_loaded"
  by (simp add: onmessage_def initial_def)

section \<open>Forward and inverse transform in two dimensions\<close>

lemma length_centered: "length (centered row y) = length row"
  by (simp add: centered_def)

lemma centered_nth:
  "x < length row \<Longrightarrow> centered row y ! x * sign x y = row ! x"
  by (simp add: centered_def sign_def)

lemma computeSpectrum_wf:
  assumes "length gray = rows" "list_all (\<lambda>row. length row = cols) gray"
  defines "rowsF \<equiv> map (\<lambda>y. fft (map complex_of_real (centered (gray ! y) y))) [0..<rows]"
  shows "computeSpectrum gray (int rows) (int cols)
           = Inr (map (\<lambda>y. map (\<lambda>x. fft (map (\<lambda>y'. rowsF ! y' ! x) [0..<rows]) ! y) [0..<cols])
                    [0..<rows])"
proof -
  have len: "length (gray ! y) = cols" if "y < rows" for y
    using assms(1,2) that by (simp add: list_all_length)
  have "\<not> list_ex (\<lambda>row. length row < cols) rowsF"
    by (auto simp: list_ex_iff rowsF_def length_fft length_centered len)
  then show ?thesis
    using assms(1) by (simp add: computeSpectrum_def Let_def rowsF_def)
qed

lemma reconGrid_computeSpectrum:
  assumes "length gray = rows" "list_all (\<lambda>row. length row = cols) gray"
  defines "rowsF \<equiv> map (\<lambda>y. fft (map complex_of_real (centered (gray ! y) y))) [0..<rows]"
  defines "S \<equiv> map (\<lambda>y. map (\<lambda>x. fft (map (\<lambda>y'. rowsF ! y' ! x) [0..<rows]) ! y) [0..<cols])
                    [0..<rows]"
  shows "reconGrid S rows cols = gray"
proof -
  have len: "length (gray ! y) = cols" if "y < rows" for y
    using assms(1,2) that by (simp add: list_all_length)
  have lenF: "length (rowsF ! y) = cols" if "y < rows" for y
    using that by (simp add: rowsF_def length_fft length_centered len)
  define colF where "colF x = fft (map (\<lambda>y'. rowsF ! y' ! x) [0..<rows])" for x
  have lenC: "length (colF x) = rows" for x
    by (simp add: colF_def length_fft)
  have S: "S ! y ! x = colF x ! y" if "y < rows" "x < cols" for y x
    using that by (simp add: S_def colF_def)
  have cols_in: "map (\<lambda>y. S ! y ! x) [0..<rows] = colF x" if "x < cols" for x
  proof -
    have "map (\<lambda>y. S ! y ! x) [0..<rows] = map (\<lambda>y. colF x ! y) [0..<rows]"
      using that by (simp add: S)
    also have "\<dots> = colF x"
      using map_nth [of "colF x"] by (simp add: lenC)
    finally show ?thesis .
  qed
  have temp: "columnsIfft (map (\<lambda>x. map (\<lambda>y. S ! y ! x) [0..<rows]) [0..<cols]) rows cols ! y
                = rowsF ! y" if "y < rows" for y
  proof -
    have "columnsIfft (map (\<lambda>x. map (\<lambda>y. S ! y ! x) [0..<rows]) [0..<cols]) rows cols ! y
            = map (\<lambda>x. ifft (colF x) ! y) [0..<cols]"
      using that by (simp add: columnsIfft_def cols_in)
    also have "\<dots> = map (\<lambda>x. rowsF ! y ! x) [0..<cols]"
      using that by (simp add: colF_def ifft_fft)
    also have "\<dots> = rowsF ! y"
      using map_nth [of "rowsF ! y"] by (simp add: lenF that)
    finally show ?thesis .
  qed
  have row: "rowsIfft (columnsIfft (map (\<lambda>x. map (\<lambda>y. S ! y ! x) [0..<rows]) [0..<cols]) rows cols)
               rows cols ! y = gray ! y" if "y < rows" for y
  proof -
    have "ifft (rowsF ! y) = map complex_of_real (centered (gray ! y) y)"
      using that by (simp add: rowsF_def ifft_fft)
    then have "rowsIfft (columnsIfft (map (\<lambda>x. map (\<lambda>y. S ! y ! x) [0..<rows]) [0..<cols]) rows cols)
               rows cols ! y = map (\<lambda>x. centered (gray ! y) y ! x * sign x y) [0..<cols]"
      using that by (simp add: rowsIfft_def temp length_centered len)
    also have "\<dots> = map (\<lambda>x. gray ! y ! x) [0..<cols]"
      using that by (simp add: centered_nth len)
    also have "\<dots> = gray ! y"
      using map_nth [of "gray ! y"] by (simp add: len that)
    finally show ?thesis .
  qed
  show ?thesis
    unfolding reconGrid_def
  proof (rule nth_equalityI)
    show "length (rowsIfft (columnsIfft (map (\<lambda>x. map (\<lambda>y. S ! y ! x) [0..<rows]) [0..<cols])
                     rows cols) rows cols) = length gray"
      by (simp add: rowsIfft_def assms(1))
  next
    fix y
    assume "y < length (rowsIfft (columnsIfft (map (\<lambda>x. map (\<lambda>y. S ! y ! x) [0..<rows]) [0..<cols])
                     rows cols) rows cols)"
    then have "y < rows" by (simp add: rowsIfft_def)
    then show "rowsIfft (columnsIfft (map (\<lambda>x. map (\<lambda>y. S ! y ! x) [0..<rows]) [0..<cols])
                 rows cols) rows cols ! y = gray ! y"
      by (rule row)
  qed
qed

lemma omega_4: "omega (Suc (Suc (Suc (Suc 0)))) = - \<i>"
  by (simp add: omega_def cis_neg)

lemma fft_4:
  "fft [a, b, c, d]
     = [a + b + c + d, a - \<i> * b - c + \<i> * d, a - b + c - d, a + \<i> * b - c - \<i> * d]"
  by (simp add: fft_def omega_4 eval_nat_numeral algebra_simps)

lemma centered_2: "centered [a, b] y = (if even y then [a, - b] else [- a, b])"
  by (simp add: centered_def even_iff_mod_2_eq_zero [symmetric])

lemma centered_4:
  "centered [a, b, c, d] y = (if even y then [a, - b, c, - d] else [- a, b, - c, d])"
  by (simp add: centered_def even_iff_mod_2_eq_zero [symmetric])

lemma computeSpectrum_2x2:
  "computeSpectrum [[1, 2], [3, 4]] 2 2 = Inr [[0, - 4], [- 2, 10]]"
  by (simp add: computeSpectrum_def centered_2 fft_2 upt_0_2 Let_def)

lemma computeSpectrum_flat:
  "computeSpectrum [[100, 100, 100, 100], [100, 100, 100, 100], [100, 100, 100, 100],
                    [100, 100, 100, 100]] 4 4
     = Inr [[0, 0, 0, 0], [0, 0, 0, 0], [0, 0, 1600, 0], [0, 0, 0, 0]]"
  by (simp add: computeSpectrum_def centered_4 fft_4 upt_0_4 Let_def)

lemma mags_flat:
  "mags [[0, 0, 0, 0], [0, 0, 0, 0], [0, 0, 1600, 0], [0, 0, 0, 0]] 4 4
     = [[0, 0, 0, 0], [0, 0, 0, 0], [0, 0, ln 1601, 0], [0, 0, 0, 0]]"
  by (simp add: mags_def upt_0_4)

lemma minmax_flat:
  "minOf [[0, 0, 0, 0], [0, 0, 0, 0], [0, 0, ln 1601, 0], [0, 0, 0, 0]] = Some 0"
  "maxOf [[0, 0, 0, 0], [0, 0, 0, 0], [0, 0, ln 1601, 0], [0, 0, 0, 0]] = Some (ln 1601)"
  by (simp_all add: minOf_def maxOf_def)

lemma replicate_64: "replicate 64 (0::int) = [0,0,0,0,0,0,0,0,0,0,0,0,0,0,0,0,0,0,0,0,0,0,0,0,0,0,0,0,0,0,0,0,0,0,0,0,0,0,0,0,0,0,0,0,0,0,0,0,0,0,0,0,0,0,0,0,0,0,0,0,0,0,0,0]"
  by code_simp

lemma renderKspace_flat:
  "renderKspace [[0, 0, 0, 0], [0, 0, 0, 0], [0, 0, 1600, 0], [0, 0, 0, 0]] 4 4
     = Inr [0, 0, 0, 255,  0, 0, 0, 255,  0, 0, 0, 255,  0, 0, 0, 255,
            0, 0, 0, 255,  0, 0, 0, 255,  0, 0, 0, 255,  0, 0, 0, 255,
            0, 0, 0, 255,  0, 0, 0, 255,  255, 255, 255, 255,  0, 0, 0, 255,
            0, 0, 0, 255,  0, 0, 0, 255,  0, 0, 0, 255,  0, 0, 0, 255]"
proof -
  have b: "toByte (ln 1601) (Some 0) (scaleOf (Some 0) (Some (ln 1601))) = 255"
    by (rule toByte_max) simp
  show ?thesis
    by (simp add: renderKspace_def toImage_def mags_flat pixelsOf_def minmax_flat fillPixels_def
        pixelRows_def pixelRow_def putPixel_def upt_0_4 replicate_64 toByte_min b
        del: toByte.simps scaleOf.simps)
qed

section \<open>Claims about the transform kernel\<close>

text \<open>
  Claim C1. For every SampleGrid of \<open>rows\<close> rows and \<open>cols\<close> columns (in particular for
  \<open>rows\<close>, \<open>cols\<close> in \<open>{1, 2, 17, 64, 100}\<close>), the forward transform (checkerboard flip,
  1D transform of every row, then of every column) followed by the unmasked inverse
  transform (inverse 1D transform of every column, then of every row, real part,
  checkerboard flip undone) gives the grid back. In exact arithmetic the two grids are
  equal, so the largest absolute pixel error is 0, below the tolerance 1 of the claim;
  the proof uses of the library's transforms only that \<open>ifft\<close> undoes \<open>fft\<close> and that
  both keep the length.
\<close>

theorem roundtrip:
  assumes "0 < rows" "0 < cols"
    and "length gray = rows" "list_all (\<lambda>row. length row = cols) gray"
  shows "\<exists>S. computeSpectrum gray (int rows) (int cols) = Inr S
           \<and> reconGrid S rows cols = gray
           \<and> (\<forall>y<rows. \<forall>x<cols. \<bar>reconGrid S rows cols ! y ! x - gray ! y ! x\<bar> < 1)"
  using computeSpectrum_wf [OF assms(3,4)] reconGrid_computeSpectrum [OF assms(3,4)] by simp

theorem roundtrip_witness:
  "computeSpectrum [[1, 2], [3, 4]] 2 2 = Inr [[0, - 4], [- 2, 10]]
   \<and> reconGrid [[0, - 4], [- 2, 10]] 2 2 = [[1, 2], [3, 4]]"
  using roundtrip [where gray = "[[1, 2], [3, 4]]" and rows = 2 and cols = 2] computeSpectrum_2x2
  by simp

text \<open>
  Claim C3, as amended. The forward transform has no check of its dimensions and no
  \<open>InvalidDimensions\<close> error: with \<open>rows = 0\<close> and \<open>cols \<le> 0\<close> it returns the empty
  spectrum; with \<open>rows < 0\<close>, or with \<open>cols < 0\<close> once there are rows to work on, the
  allocation \<^verbatim>\<open>new Array\<close> throws a \<open>RangeError\<close>, an exception that
  \<^verbatim>\<open>processImage\<close> catches; and for a grid of positive dimensions \<open>rows\<close> and \<open>cols\<close>
  it does not fail.
\<close>

theorem forward_dimensions:
  "(cols \<le> 0 \<longrightarrow> computeSpectrum gray 0 cols = Inr [])
   \<and> (rows < 0 \<longrightarrow> computeSpectrum gray rows cols = Inl RangeError)
   \<and> (0 < rows \<and> nat rows \<le> length gray \<and> list_all (\<lambda>row. row \<noteq> []) gray \<and> cols < 0
        \<longrightarrow> computeSpectrum gray rows cols = Inl RangeError)
   \<and> (0 < rows \<and> 0 < cols \<and> length gray = nat rows
        \<and> list_all (\<lambda>row. length row = nat cols) gray
        \<longrightarrow> (\<exists>S. computeSpectrum gray rows cols = Inr S))"
proof (intro conjI impI)
  show "computeSpectrum gray 0 cols = Inr []"
    by (simp add: computeSpectrum_def)
next
  assume "rows < 0"
  then show "computeSpectrum gray rows cols = Inl RangeError"
    by (simp add: computeSpectrum_def)
next
  assume "0 < rows \<and> nat rows \<le> length gray \<and> list_all (\<lambda>row. row \<noteq> []) gray \<and> cols < 0"
  then show "computeSpectrum gray rows cols = Inl RangeError"
    by (simp add: computeSpectrum_def Let_def)
next
  assume a: "0 < rows \<and> 0 < cols \<and> length gray = nat rows
        \<and> list_all (\<lambda>row. length row = nat cols) gray"
  then have "computeSpectrum gray (int (nat rows)) (int (nat cols)) = Inr
     (map (\<lambda>y. map (\<lambda>x. fft (map (\<lambda>y'. map (\<lambda>y. fft (map complex_of_real (centered (gray ! y) y)))
              [0..<nat rows] ! y' ! x) [0..<nat rows]) ! y) [0..<nat cols]) [0..<nat rows])"
    by (intro computeSpectrum_wf) simp_all
  then show "\<exists>S. computeSpectrum gray rows cols = Inr S"
    using a by simp
qed

theorem forward_dimensions_witness:
  "computeSpectrum [[1, 2], [3, 4]] 0 (- 1) = Inr []
   \<and> computeSpectrum [[1, 2], [3, 4]] (- 1) 2 = Inl RangeError
   \<and> computeSpectrum [[1, 2], [3, 4]] 2 (- 1) = Inl RangeError
   \<and> (\<exists>S. computeSpectrum [[1, 2], [3, 4]] 2 2 = Inr S)"
  using forward_dimensions [where gray = "[[1, 2], [3, 4]]" and rows = 2 and cols = "- 1"]
    forward_dimensions [where gray = "[[1, 2], [3, 4]]" and rows = 2 and cols = 2]
    forward_dimensions [where gray = "[[1, 2], [3, 4]]" and rows = "- 1" and cols = 2]
  by simp

text \<open>
  Claim C3 as stated fails: an input with \<open>rows = 0\<close> and \<open>cols = 0\<close> is not rejected,
  the transform returns an empty spectrum.
\<close>

theorem zero_rows_counterexample: "computeSpectrum [] 0 0 = Inr []"
  by (simp add: computeSpectrum_def)

text \<open>
  Claim C7. For the 4 by 4 SampleGrid whose every sample is 100, the forward transform
  produces a spectrum with all energy in the DC term, the coefficient of frequency
  \<open>(0, 0)\<close>, and all other coefficients 0: the value is 1600, and the checkerboard flip of
  the centred transform places it at the centre of the grid, array position \<open>(2, 2)\<close>.
  The log-magnitude rendering of that spectrum is a single bright pixel (white) at the
  centre, pixel \<open>(2, 2)\<close>, of an otherwise uniform dark field (opaque black).
\<close>

theorem flat_grid_spectrum:
  "computeSpectrum [[100, 100, 100, 100], [100, 100, 100, 100], [100, 100, 100, 100],
                    [100, 100, 100, 100]] 4 4
     = Inr [[0, 0, 0, 0], [0, 0, 0, 0], [0, 0, 1600, 0], [0, 0, 0, 0]]
   \<and> renderKspace [[0, 0, 0, 0], [0, 0, 0, 0], [0, 0, 1600, 0], [0, 0, 0, 0]] 4 4
     = Inr [0, 0, 0, 255,  0, 0, 0, 255,  0, 0, 0, 255,  0, 0, 0, 255,
            0, 0, 0, 255,  0, 0, 0, 255,  0, 0, 0, 255,  0, 0, 0, 255,
            0, 0, 0, 255,  0, 0, 0, 255,  255, 255, 255, 255,  0, 0, 0, 255,
            0, 0, 0, 255,  0, 0, 0, 255,  0, 0, 0, 255,  0, 0, 0, 255]"
  using computeSpectrum_flat renderKspace_flat by simp

section \<open>Requests, replies and the displayed result\<close>

lemma app_shows_last:
  "reconUrl (foldl app_onmessage a (rs @ [Recon r c px])) = Some (r, c, px)"
  by (simp add: app_onmessage_def)

lemma workerRecon_example0:
  "workerRecon [4, 0, 0, 0] [0, 0, 0, 0] 2 2 1 1 0 = Some [[0, 0], [0, 0]]"
  by (simp add: workerRecon_def maskedCol_def inside_def complexAt_def idx_def js_nth_def
      columnsIfft_def rowsIfft_def ifft_2 sign_def eval_nat_numeral Let_def complex_eq_iff)

lemma pixelsOf_example0: "pixelsOf [[0, 0], [0, 0]] 2 2
    = [0, 0, 0, 255, 0, 0, 0, 255, 0, 0, 0, 255, 0, 0, 0, 255]"
proof -
  have m: "minOf [[0, 0], [0, 0]] = Some 0" "maxOf [[0, 0], [0, 0]] = Some 0"
    by (simp_all add: minOf_def maxOf_def)
  show ?thesis
    by (simp add: pixelsOf_def m fillPixels_def pixelRows_def pixelRow_def putPixel_def upt_0_2
        replicate_16 toByte_min del: toByte.simps scaleOf.simps)
qed

lemma onmessage_example0:
  "onmessage \<lparr>ROWS = 2, COLS = 2, SPEC_RE = Some [4, 0, 0, 0], SPEC_IM = Some [0, 0, 0, 0]\<rparr>
       (CircleRecon 1 1 0)
     = (\<lparr>ROWS = 2, COLS = 2, SPEC_RE = Some [4, 0, 0, 0], SPEC_IM = Some [0, 0, 0, 0]\<rparr>,
        Recon 2 2 [0, 0, 0, 255, 0, 0, 0, 255, 0, 0, 0, 255, 0, 0, 0, 255])"
  using reconFromCircle_eq [OF workerRecon_example0]
  by (simp add: onmessage_def pixelsOf_example0)

text \<open>
  Claim C9, as amended. The worker handles its messages one at a time, in the order they
  arrive, and posts each reply before it reads the next message; so when the
  reconstruction requests 1 and 2 are issued in that order, reply 1 is posted before
  reply 2, and once both have arrived the displayed result is the content of reply 2.
  The messages carry no sequence number or generation tag (see \<open>in_msg\<close> and
  \<open>out_msg\<close>), and the handler of the interface thread displays whichever \<^verbatim>\<open>recon\<close>
  reply arrived last.
\<close>

theorem replies_in_order:
  assumes "run w [m1, m2] = (w', replies)"
    and "snd (onmessage (fst (onmessage w m1)) m2) = Recon R C px"
  shows "replies = [snd (onmessage w m1), Recon R C px]
       \<and> reconUrl (foldl app_onmessage a replies) = Some (R, C, px)"
proof -
  have "replies = [snd (onmessage w m1), Recon R C px]"
    using assms by (auto simp: split_def Let_def)
  then show ?thesis
    using app_shows_last [of a "[snd (onmessage w m1)]" R C px] by simp
qed

theorem replies_in_order_witness:
  "run \<lparr>ROWS = 2, COLS = 2, SPEC_RE = Some [4, 0, 0, 0], SPEC_IM = Some [0, 0, 0, 0]\<rparr>
       [CircleRecon 1 1 0, CircleRecon 1 1 2]
     = (\<lparr>ROWS = 2, COLS = 2, SPEC_RE = Some [4, 0, 0, 0], SPEC_IM = Some [0, 0, 0, 0]\<rparr>,
        [Recon 2 2 [0, 0, 0, 255, 0, 0, 0, 255, 0, 0, 0, 255, 0, 0, 0, 255],
         Recon 2 2 [255, 255, 255, 255, 0, 0, 0, 255, 0, 0, 0, 255, 255, 255, 255, 255]])
   \<and> reconUrl (foldl app_onmessage
         \<lparr>app_rows = Some 2, app_cols = Some 2, circleCenter = None, reconUrl = None,
            reconBusy = True\<rparr>
         [Recon 2 2 [0, 0, 0, 255, 0, 0, 0, 255, 0, 0, 0, 255, 0, 0, 0, 255],
          Recon 2 2 [255, 255, 255, 255, 0, 0, 0, 255, 0, 0, 0, 255, 255, 255, 255, 255]])
     = Some (2, 2, [255, 255, 255, 255, 0, 0, 0, 255, 0, 0, 0, 255, 255, 255, 255, 255])"
  using replies_in_order
    [of "\<lparr>ROWS = 2, COLS = 2, SPEC_RE = Some [4, 0, 0, 0], SPEC_IM = Some [0, 0, 0, 0]\<rparr>"
        "CircleRecon 1 1 0" "CircleRecon 1 1 2"
        "\<lparr>ROWS = 2, COLS = 2, SPEC_RE = Some [4, 0, 0, 0], SPEC_IM = Some [0, 0, 0, 0]\<rparr>"
        "[Recon 2 2 [0, 0, 0, 255, 0, 0, 0, 255, 0, 0, 0, 255, 0, 0, 0, 255],
          Recon 2 2 [255, 255, 255, 255, 0, 0, 0, 255, 0, 0, 0, 255, 255, 255, 255, 255]]"
        2 2 "[255, 255, 255, 255, 0, 0, 0, 255, 0, 0, 0, 255, 255, 255, 255, 255]"
        "\<lparr>app_rows = Some 2, app_cols = Some 2, circleCenter = None, reconUrl = None,
            reconBusy = True\<rparr>"]
  by (simp add: onmessage_example0 onmessage_example)

text \<open>
  Claim C9 as stated fails: nothing detects a stale reply. Were the reply to request 1
  (radius 0) to arrive after the reply to request 2 (radius 2), the handler would
  display the content of reply 1.
\<close>

theorem late_reply_counterexample:
  "snd (onmessage \<lparr>ROWS = 2, COLS = 2, SPEC_RE = Some [4, 0, 0, 0], SPEC_IM = Some [0, 0, 0, 0]\<rparr>
          (CircleRecon 1 1 0))
     = Recon 2 2 [0, 0, 0, 255, 0, 0, 0, 255, 0, 0, 0, 255, 0, 0, 0, 255]
   \<and> snd (onmessage \<lparr>ROWS = 2, COLS = 2, SPEC_RE = Some [4, 0, 0, 0], SPEC_IM = Some [0, 0, 0, 0]\<rparr>
          (CircleRecon 1 1 2))
     = Recon 2 2 [255, 255, 255, 255, 0, 0, 0, 255, 0, 0, 0, 255, 255, 255, 255, 255]
   \<and> reconUrl (foldl app_onmessage
         \<lparr>app_rows = Some 2, app_cols = Some 2, circleCenter = None, reconUrl = None,
            reconBusy = True\<rparr>
         [Recon 2 2 [255, 255, 255, 255, 0, 0, 0, 255, 0, 0, 0, 255, 255, 255, 255, 255],
          Recon 2 2 [0, 0, 0, 255, 0, 0, 0, 255, 0, 0, 0, 255, 0, 0, 0, 255]])
     = Some (2, 2, [0, 0, 0, 255, 0, 0, 0, 255, 0, 0, 0, 255, 0, 0, 0, 255])"
  by (simp add: onmessage_example0 onmessage_example app_onmessage_def)

section \<open>Debounce\<close>

lemma clearTimer_armed: "armed s \<Longrightarrow> pending (clearTimer s) = []"
  by (auto simp: armed_def clearTimer_def split: option.splits)




















text \<open>
  What follows the expiry of the overlay's timeout. The callback calls \<^verbatim>\<open>onMove\<close> once,
  with what the timeout carries. When the host then hands that centre back as the
  \<^verbatim>\<open>center\<close> prop, as \<open>onOverlayMove\<close> of \<^verbatim>\<open>App.tsx\<close> does, the effect of lines 75-80
  runs after the next render and calls \<^verbatim>\<open>onMove\<close> again, with the same centre.
\<close>

lemma overlay_fire_calls:
  "ov_pending s = [(h, latest, rn)] \<Longrightarrow> ov_sent (overlay_fire h s) = ov_sent s @ [(latest, rn)]"
  by (simp add: overlay_fire_def)

lemma overlay_effect_calls:
  "shown p \<Longrightarrow> center p = Some c \<Longrightarrow> 0 < rn \<Longrightarrow>
     ov_sent (overlay_effect p rn s) = ov_sent s @ [(c, rn)]"
  by (simp add: overlay_effect_def)

lemma overlay_commit_in_app:
  assumes "ov_pending s = [(h, latest, rn)]" "shown p" "center p = Some latest" "0 < rn'"
  shows "ov_sent (overlay_effect p rn' (overlay_fire h s)) = ov_sent s @ [(latest, rn), (latest, rn')]"
  using assms by (simp add: overlay_effect_def overlay_fire_def)

text \<open>In the render that first mounts the container the radius is 0 and the effect calls nothing.\<close>

lemma overlay_effect_first_render:
  "ov_sent (overlay_effect p (radiusNatural (p\<lparr>bounds := None\<rparr>) s) s) = ov_sent s"
  by (simp add: overlay_effect_def radiusNatural_def split: option.splits)



lemma overlay_resize_example:
  "foldl (overlay_onResizeMove
       \<lparr>shown = True, disabled = False, center = None, radiusPx = 35, naturalWidth = 100,
          naturalHeight = 100,
          bounds = Some \<lparr>rleft = 0, rtop = 0, rwidth = 100, rheight = 100\<rparr>\<rparr>)
     \<lparr>ov_dragging = False, ov_resizing = True, ov_localCenter = Some (50, 50),
        ov_localRadiusPx = None, ov_timerRef = None, ov_lastNatRef = Some (50, 50),
        ov_pending = [], ov_fresh = 1, ov_sent = [((50, 50), 35)]\<rparr>
     [(60, 50), (70, 50)]
   = \<lparr>ov_dragging = False, ov_resizing = True, ov_localCenter = Some (50, 50),
        ov_localRadiusPx = Some 20, ov_timerRef = None, ov_lastNatRef = Some (50, 50),
        ov_pending = [], ov_fresh = 1, ov_sent = [((50, 50), 35)]\<rparr>"
  by (simp add: overlay_onResizeMove_def Let_def toDisplay_def orElseOpt_def)

text \<open>
  Pointer-up on the canvas during a gesture cancels the timeout and commits at once
  (``flush any pending debounced recon immediately''); pointer-down on the overlay
  starts a drag and sends nothing.
\<close>

lemma canvas_up_flushes:
  assumes "\<not> disabled p" "bounds p \<noteq> None" "dragging s \<or> resizing s" "armed s"
    and "orElseOpt (lastNatRef s) (center p) = Some latest"
  shows "pending (canvas_onPointerUp p s) = []
       \<and> timerRef (canvas_onPointerUp p s) = None
       \<and> sent (canvas_onPointerUp p s)
           = sent s @ [(latest, naturalRadius p (orElse (localRadiusPx s) (radiusPx p)))]"
  using assms
  by (auto simp: canvas_onPointerUp_def Let_def armed_def clearTimer_def split: option.splits)

lemma overlay_down_starts_drag:
  "shown p \<Longrightarrow> \<not> disabled p \<Longrightarrow> bounds p \<noteq> None \<Longrightarrow>
     dragOn p (overlay_onPointerDown p s client)
     \<and> ov_pending (overlay_onPointerDown p s client) = ov_pending s
     \<and> ov_timerRef (overlay_onPointerDown p s client) = ov_timerRef s
     \<and> ov_sent (overlay_onPointerDown p s client) = ov_sent s"
  by (auto simp: overlay_onPointerDown_def dragOn_def Let_def)

text \<open>Every call of \<^verbatim>\<open>onMove\<close> posts one reconstruct request once an image is loaded.\<close>

lemma onOverlayMove_posts:
  "app_rows a \<noteq> None \<Longrightarrow> app_cols a \<noteq> None \<Longrightarrow>
     snd (onOverlayMove a centerNat radiusNat)
       = Some (CircleRecon (fst centerNat) (snd centerNat) radiusNat)"
  by (simp add: onOverlayMove_def Let_def)




end
